theory Spec2Isabelle
  imports Main
begin

section \<open>Data model\<close>

text \<open>
  JavaScript values that the service passes through without inspecting their structure
  (filter expressions, embeds, mention rules, message payloads). Object literals keep the
  order of their properties.
\<close>

datatype jsval =
    Undefined
  | Null
  | Bool bool
  | Num int
  | Str string
  | Arr "jsval list"
  | Obj "(string \<times> jsval) list"

text \<open>JavaScript truthiness, as used by \<open>?:\<close>, \<open>!\<close> and \<open>||\<close>.\<close>

fun truthy :: "jsval \<Rightarrow> bool" where
  "truthy Undefined = False"
| "truthy Null = False"
| "truthy (Bool b) = b"
| "truthy (Num n) = (n \<noteq> 0)"
| "truthy (Str s) = (s \<noteq> [])"
| "truthy (Arr xs) = True"
| "truthy (Obj kvs) = True"

text \<open>Optional property access \<open>v?.k\<close>: \<open>undefined\<close> when there is nothing to read.\<close>

fun optGet :: "jsval \<Rightarrow> string \<Rightarrow> jsval" where
  "optGet (Obj kvs) k = (case map_of kvs k of None \<Rightarrow> Undefined | Some v \<Rightarrow> v)"
| "optGet v k = Undefined"

text \<open>
  The enums are declared outside of the service file; the members the service names are
  constructors, every other member is carried by its string value.
\<close>

datatype UserFeedDisabledCode = FailedRequests | OtherUserFeedDisabledCode string

datatype UserFeedHealthStatus = Ok | Failed | OtherUserFeedHealthStatus string

datatype FeedConnectionDisabledCode = Manual | OtherFeedConnectionDisabledCode string

datatype MessageBrokerQueue =
    UrlFailedDisableFeeds
  | FeedRejectedDisableFeed
  | FeedRejectedArticleDisableConnection
  | UrlFetch
  | UrlFetchBatch
  | FeedDeliverArticles

datatype error = Error string

record Filters =
  expression :: jsval

text \<open>
  A connection of either kind; \<open>'d\<close> is the kind's \<open>details\<close>. \<open>conn_id\<close> is
  \<open>id.toHexString()\<close>; an absent \<open>disabledCode\<close> is \<open>None\<close>.
\<close>

record 'd Connection =
  conn_id :: string
  con_disabledCode :: "FeedConnectionDisabledCode option"
  filters :: "Filters option"
  mentions :: jsval
  splitOptions :: jsval
  details :: 'd

record Channel =
  channel_id :: jsval
  channel_type :: jsval
  channel_guildId :: jsval

record ChannelDetails =
  channel :: Channel
  channel_content :: jsval
  channel_embeds :: jsval
  forumThreadTitle :: jsval
  forumThreadTags :: jsval
  channel_formatter :: jsval
  channel_placeholderLimits :: jsval
  channel_enablePlaceholderFallback :: jsval

record Webhook =
  webhook_id :: jsval
  webhook_token :: jsval
  webhook_name :: jsval
  webhook_iconUrl :: jsval
  webhook_guildId :: jsval

record WebhookDetails =
  webhook :: Webhook
  webhook_content :: jsval
  webhook_embeds :: jsval
  webhook_formatter :: jsval
  webhook_placeholderLimits :: jsval
  webhook_enablePlaceholderFallback :: jsval

record Connections =
  discordChannels :: "ChannelDetails Connection list"
  discordWebhooks :: "WebhookDetails Connection list"

text \<open>
  A feed document. \<open>feed_id\<close> is \<open>_id\<close> as a hex string, \<open>user_discordUserId\<close> is
  \<open>user.discordUserId\<close>. A field the document may lack is an option.
\<close>

record UserFeed =
  feed_id :: string
  url :: string
  refreshRateSeconds :: "int option"
  user_discordUserId :: string
  disabledCode :: "UserFeedDisabledCode option"
  healthStatus :: UserFeedHealthStatus
  passingComparisons :: "string list option"
  blockingComparisons :: "string list option"
  formatOptions :: jsval
  dateCheckOptions :: jsval
  connections :: Connections

text \<open>One record of \<open>getBenefitsOfAllDiscordUsers()\<close>.\<close>

record Benefit =
  discordUserId :: string
  benefit_refreshRateSeconds :: int
  maxUserFeeds :: int
  maxDailyArticles :: int
  isSupporter :: bool

datatype LogLevel = Debug | Warn

text \<open>A log call: its level and the parts of its template literal, not yet joined.\<close>

type_synonym LogEntry = "LogLevel \<times> jsval list"

record Message =
  queue :: MessageBrokerQueue
  payload :: jsval
  expiration :: int

text \<open>
  Everything the service acts on: the feed collection in its natural order, the matched
  count of every update operation issued so far, the logger's output, the messages
  published on the bus, and the clock read by \<open>Date.now()\<close>.
\<close>

record World =
  feeds :: "UserFeed list"
  updateLog :: "nat list"
  logs :: "LogEntry list"
  published :: "Message list"
  dateNow :: int

text \<open>
  What the constructor injects and what the service imports from files outside of it:
  configuration, the supporters service, the reject-code tables (which may throw), the
  casts of the delivery payload, and the queue names.
\<close>

record Service =
  BACKEND_API_DEFAULT_REFRESH_RATE_MINUTES :: int
  getBenefitsOfAllDiscordUsers :: "Benefit list"
  maxDailyArticlesDefault :: int
  getUserFeedDisableCodeByFeedRejectCode :: "string \<Rightarrow> error + UserFeedDisabledCode"
  getConnectionDisableCodeByArticleRejectCode :: "string \<Rightarrow> error + FeedConnectionDisabledCode"
  castDiscordContentForMedium :: "jsval \<Rightarrow> jsval"
  castDiscordEmbedsForMedium :: "jsval \<Rightarrow> jsval"
  queueName :: "MessageBrokerQueue \<Rightarrow> string"

definition defaultRefreshRateSeconds :: "Service \<Rightarrow> int" where
  "defaultRefreshRateSeconds svc = BACKEND_API_DEFAULT_REFRESH_RATE_MINUTES svc * 60"

section \<open>The store, the logger and the bus\<close>

text \<open>\<open>updateMany(filter, update)\<close>: every matching document is updated.\<close>

definition updateMany :: "(UserFeed \<Rightarrow> bool) \<Rightarrow> (UserFeed \<Rightarrow> UserFeed) \<Rightarrow> World \<Rightarrow> World" where
  "updateMany flt upd w =
     w\<lparr>feeds := map (\<lambda>f. if flt f then upd f else f) (feeds w),
       updateLog := updateLog w @ [length (filter flt (feeds w))]\<rparr>"

text \<open>\<open>updateOne(filter, update)\<close>: the first matching document is updated.\<close>

fun updateFirst :: "(UserFeed \<Rightarrow> bool) \<Rightarrow> (UserFeed \<Rightarrow> UserFeed) \<Rightarrow> UserFeed list \<Rightarrow> UserFeed list" where
  "updateFirst flt upd [] = []"
| "updateFirst flt upd (f # fs) = (if flt f then upd f # fs else f # updateFirst flt upd fs)"

definition updateOne :: "(UserFeed \<Rightarrow> bool) \<Rightarrow> (UserFeed \<Rightarrow> UserFeed) \<Rightarrow> World \<Rightarrow> World" where
  "updateOne flt upd w =
     w\<lparr>feeds := updateFirst flt upd (feeds w),
       updateLog := updateLog w @ [if list_ex flt (feeds w) then 1 else 0]\<rparr>"

definition findById :: "string \<Rightarrow> World \<Rightarrow> UserFeed option" where
  "findById feedId w = find (\<lambda>f. feed_id f = feedId) (feeds w)"

definition logger :: "LogLevel \<Rightarrow> jsval list \<Rightarrow> World \<Rightarrow> World" where
  "logger lvl parts w = w\<lparr>logs := logs w @ [(lvl, parts)]\<rparr>"

definition publish :: "MessageBrokerQueue \<Rightarrow> jsval \<Rightarrow> int \<Rightarrow> World \<Rightarrow> World" where
  "publish q body expiry w =
     w\<lparr>published := published w @ [\<lparr>queue = q, payload = body, expiration = expiry\<rparr>]\<rparr>"

section \<open>Outcome-event handlers\<close>

definition handleUrlRequestFailureEvent :: "Service \<Rightarrow> string \<Rightarrow> World \<Rightarrow> (error + unit) \<times> World" where
  "handleUrlRequestFailureEvent svc u w =
     (let w1 = logger Debug [Str ''handling url request failure event for url '', Str u] w;
          w2 = updateMany
                 (\<lambda>f. url f = u \<and> disabledCode f = None)
                 (\<lambda>f. f\<lparr>disabledCode := Some FailedRequests, healthStatus := Failed\<rparr>)
                 w1
      in (Inr (), w2))"

definition handleFeedRejectedDisableFeed :: "Service \<Rightarrow> string \<Rightarrow> string \<Rightarrow> World \<Rightarrow> (error + unit) \<times> World" where
  "handleFeedRejectedDisableFeed svc feedId rejectedCode w =
     (case findById feedId w of
        None \<Rightarrow>
          (Inr (),
           logger Warn
             [Str ''No feed with ID '', Str feedId, Str '' was found when attempting to'',
              Str '' handle message from '', Str (queueName svc FeedRejectedDisableFeed)] w)
      | Some foundFeed \<Rightarrow>
          (case getUserFeedDisableCodeByFeedRejectCode svc rejectedCode of
             Inl e \<Rightarrow> (Inl e, w)
           | Inr code \<Rightarrow>
               (Inr (),
                updateOne
                  (\<lambda>f. feed_id f = feedId \<and> disabledCode f = None)
                  (\<lambda>f. f\<lparr>disabledCode := Some code\<rparr>)
                  w)))"

text \<open>
  The keys of \<open>connections\<close>, and the two things the handler does with a path
  \<open>connections.<key>.<index>.disabledCode\<close>: test that it is absent, and set it. The handler
  takes the index from the document it has just read, so the index is within the array; at
  an index beyond the array the test finds nothing, and the model's write changes nothing.
\<close>

datatype ConnectionKey = DiscordChannels | DiscordWebhooks

fun disabledCodeAbsentAt :: "ConnectionKey \<Rightarrow> nat \<Rightarrow> UserFeed \<Rightarrow> bool" where
  "disabledCodeAbsentAt DiscordChannels i f =
     (if i < length (discordChannels (connections f))
      then con_disabledCode (discordChannels (connections f) ! i) = None else True)"
| "disabledCodeAbsentAt DiscordWebhooks i f =
     (if i < length (discordWebhooks (connections f))
      then con_disabledCode (discordWebhooks (connections f) ! i) = None else True)"

definition setCode :: "FeedConnectionDisabledCode \<Rightarrow> nat \<Rightarrow> 'd Connection list \<Rightarrow> 'd Connection list" where
  "setCode code i cs = (if i < length cs then cs[i := (cs ! i)\<lparr>con_disabledCode := Some code\<rparr>] else cs)"

fun setDisabledCodeAt :: "ConnectionKey \<Rightarrow> nat \<Rightarrow> FeedConnectionDisabledCode \<Rightarrow> UserFeed \<Rightarrow> UserFeed" where
  "setDisabledCodeAt DiscordChannels i code f =
     f\<lparr>connections := (connections f)\<lparr>discordChannels := setCode code i (discordChannels (connections f))\<rparr>\<rparr>"
| "setDisabledCodeAt DiscordWebhooks i code f =
     f\<lparr>connections := (connections f)\<lparr>discordWebhooks := setCode code i (discordWebhooks (connections f))\<rparr>\<rparr>"

text \<open>\<open>Object.entries(foundFeed.connections)\<close>, each connection reduced to the id the loop reads.\<close>

definition connectionEntries :: "UserFeed \<Rightarrow> (ConnectionKey \<times> string list) list" where
  "connectionEntries f =
     [(DiscordChannels, map conn_id (discordChannels (connections f))),
      (DiscordWebhooks, map conn_id (discordWebhooks (connections f)))]"

text \<open>The body of the inner loop, for one index.\<close>

definition disableConnectionAt ::
  "string \<Rightarrow> string \<Rightarrow> FeedConnectionDisabledCode \<Rightarrow> ConnectionKey \<Rightarrow> string list \<Rightarrow> nat \<Rightarrow> World \<Rightarrow> World" where
  "disableConnectionAt feedId mediumId disableCode connectionKey ids conIdx w =
     (if ids ! conIdx \<noteq> mediumId then w
      else updateOne
             (\<lambda>f. feed_id f = feedId \<and> disabledCodeAbsentAt connectionKey conIdx f)
             (setDisabledCodeAt connectionKey conIdx disableCode)
             w)"

definition handleRejectedArticleDisableConnection ::
  "Service \<Rightarrow> string \<Rightarrow> string \<Rightarrow> string \<Rightarrow> World \<Rightarrow> (error + unit) \<times> World" where
  "handleRejectedArticleDisableConnection svc feedId mediumId rejectedCode w =
     (case findById feedId w of
        None \<Rightarrow>
          (Inr (),
           logger Warn
             [Str ''No feed with ID '', Str feedId, Str '' was found when attempting to'',
              Str '' handle message from '',
              Str (queueName svc FeedRejectedArticleDisableConnection)] w)
      | Some foundFeed \<Rightarrow>
          (case getConnectionDisableCodeByArticleRejectCode svc rejectedCode of
             Inl e \<Rightarrow> (Inl e, w)
           | Inr disableCode \<Rightarrow>
               (Inr (),
                fold (\<lambda>(connectionKey, ids).
                        fold (disableConnectionAt feedId mediumId disableCode connectionKey ids)
                          [0..<length ids])
                  (connectionEntries foundFeed) w)))"

section \<open>Emitting work on the bus\<close>

text \<open>The argument \<open>data\<close> is the object \<open>{url, rateSeconds}\<close>; the payload is \<open>{ data }\<close>.\<close>

definition emitUrlRequestEvent :: "Service \<Rightarrow> string \<Rightarrow> int \<Rightarrow> World \<Rightarrow> World" where
  "emitUrlRequestEvent svc u rateSeconds w =
     (let data = Obj [(''url'', Str u), (''rateSeconds'', Num rateSeconds)];
          w1 = publish UrlFetch (Obj [(''data'', data)]) (rateSeconds * 1000) w
      in logger Debug [Str ''successfully emitted url request event''] w1)"

definition emitUrlRequestBatchEvent :: "Service \<Rightarrow> int \<Rightarrow> string list \<Rightarrow> World \<Rightarrow> World" where
  "emitUrlRequestBatchEvent svc rateSeconds urls w =
     (let body = Obj [(''rateSeconds'', Num rateSeconds),
                      (''data'', Arr (map (\<lambda>u. Obj [(''url'', Str u)]) urls)),
                      (''timestamp'', Num (dateNow w))];
          w1 = publish UrlFetchBatch body (rateSeconds * 1000) w
      in logger Debug [Str ''successfully emitted url request event''] w1)"

text \<open>\<open>con.filters?.expression ? { expression: con.filters.expression } : null\<close>\<close>

definition mediumFilters :: "Filters option \<Rightarrow> jsval" where
  "mediumFilters fl =
     (case fl of
        None \<Rightarrow> Null
      | Some x \<Rightarrow> if truthy (expression x) then Obj [(''expression'', expression x)] else Null)"

text \<open>\<open>con.splitOptions?.isEnabled ? con.splitOptions : undefined\<close>\<close>

definition mediumSplitOptions :: "jsval \<Rightarrow> jsval" where
  "mediumSplitOptions so = (if truthy (optGet so ''isEnabled'') then so else Undefined)"

definition mediumFormatter :: "jsval \<Rightarrow> jsval" where
  "mediumFormatter fm =
     Obj [(''formatTables'', optGet fm ''formatTables''), (''stripImages'', optGet fm ''stripImages'')]"

definition discordChannelMedium :: "Service \<Rightarrow> ChannelDetails Connection \<Rightarrow> jsval" where
  "discordChannelMedium svc con =
     Obj [(''id'', Str (conn_id con)),
          (''key'', Str ''discord''),
          (''filters'', mediumFilters (filters con)),
          (''details'', Obj
             [(''guildId'', channel_guildId (channel (details con))),
              (''channel'', Obj
                 [(''id'', channel_id (channel (details con))),
                  (''type'', channel_type (channel (details con))),
                  (''guildId'', channel_guildId (channel (details con)))]),
              (''content'', castDiscordContentForMedium svc (channel_content (details con))),
              (''embeds'', castDiscordEmbedsForMedium svc (channel_embeds (details con))),
              (''forumThreadTitle'', forumThreadTitle (details con)),
              (''forumThreadTags'', forumThreadTags (details con)),
              (''mentions'', mentions con),
              (''formatter'', mediumFormatter (channel_formatter (details con))),
              (''splitOptions'', mediumSplitOptions (splitOptions con)),
              (''placeholderLimits'', channel_placeholderLimits (details con)),
              (''enablePlaceholderFallback'', channel_enablePlaceholderFallback (details con))])]"

definition discordWebhookMedium :: "Service \<Rightarrow> WebhookDetails Connection \<Rightarrow> jsval" where
  "discordWebhookMedium svc con =
     Obj [(''id'', Str (conn_id con)),
          (''key'', Str ''discord''),
          (''filters'', mediumFilters (filters con)),
          (''details'', Obj
             [(''guildId'', webhook_guildId (webhook (details con))),
              (''webhook'', Obj
                 [(''id'', webhook_id (webhook (details con))),
                  (''token'', webhook_token (webhook (details con))),
                  (''name'', webhook_name (webhook (details con))),
                  (''iconUrl'', webhook_iconUrl (webhook (details con)))]),
              (''content'', castDiscordContentForMedium svc (webhook_content (details con))),
              (''embeds'', castDiscordEmbedsForMedium svc (webhook_embeds (details con))),
              (''formatter'', mediumFormatter (webhook_formatter (details con))),
              (''splitOptions'', mediumSplitOptions (splitOptions con)),
              (''mentions'', mentions con),
              (''placeholderLimits'', webhook_placeholderLimits (details con)),
              (''enablePlaceholderFallback'', webhook_enablePlaceholderFallback (details con))])]"

text \<open>\<open>(c) => !c.disabledCode\<close>: the codes are non-empty strings, so only an absent one is falsy.\<close>

definition notDisabled :: "'d Connection \<Rightarrow> bool" where
  "notDisabled c = (con_disabledCode c = None)"

definition comparisons :: "string list option \<Rightarrow> jsval" where
  "comparisons cmp = Arr (map Str (case cmp of None \<Rightarrow> [] | Some xs \<Rightarrow> xs))"

definition emitDeliverFeedArticlesEvent :: "Service \<Rightarrow> UserFeed \<Rightarrow> int \<Rightarrow> World \<Rightarrow> World" where
  "emitDeliverFeedArticlesEvent svc userFeed maxDaily w =
     (let discordChannelMediums =
            map (discordChannelMedium svc) (filter notDisabled (discordChannels (connections userFeed)));
          discordWebhookMediums =
            map (discordWebhookMedium svc) (filter notDisabled (discordWebhooks (connections userFeed)));
          allMediums = discordChannelMediums @ discordWebhookMediums;
          body = Obj
            [(''timestamp'', Num (dateNow w)),
             (''data'', Obj
                [(''articleDayLimit'', Num maxDaily),
                 (''feed'', Obj
                    [(''id'', Str (feed_id userFeed)),
                     (''url'', Str (url userFeed)),
                     (''passingComparisons'', comparisons (passingComparisons userFeed)),
                     (''blockingComparisons'', comparisons (blockingComparisons userFeed)),
                     (''formatOptions'', Obj
                        [(''dateFormat'', optGet (formatOptions userFeed) ''dateFormat''),
                         (''dateTimezone'', optGet (formatOptions userFeed) ''dateTimezone'')]),
                     (''dateChecks'', dateCheckOptions userFeed)]),
                 (''mediums'', Arr allMediums)])];
          w1 = publish FeedDeliverArticles body (1000 * 60 * 60) w
      in logger Debug [Str ''successfully emitted deliver feed articles event''] w1)"

section \<open>Synchronising refresh rates\<close>

text \<open>
  A JavaScript \<open>Map\<close> as an association list in insertion order: \<open>get\<close> is \<open>map_of\<close>,
  \<open>set\<close> replaces the value of a key in place and appends a new key.
\<close>

definition mapSet :: "('k \<times> 'v) list \<Rightarrow> 'k \<Rightarrow> 'v \<Rightarrow> ('k \<times> 'v) list" where
  "mapSet m k v =
     (case map_of m k of
        None \<Rightarrow> m @ [(k, v)]
      | Some old \<Rightarrow> map (\<lambda>(k', v'). if k' = k then (k', v) else (k', v')) m)"

text \<open>One round of the grouping loop; \<open>push\<close> on the stored array is a \<open>set\<close> of the longer one.\<close>

definition groupSupporter :: "Benefit \<Rightarrow> (int \<times> string list) list \<Rightarrow> (int \<times> string list) list" where
  "groupSupporter s m =
     (case map_of m (benefit_refreshRateSeconds s) of
        None \<Rightarrow> mapSet m (benefit_refreshRateSeconds s) [discordUserId s]
      | Some currentDiscordUserIds \<Rightarrow>
          mapSet m (benefit_refreshRateSeconds s) (currentDiscordUserIds @ [discordUserId s]))"

definition supportersByRefreshRates :: "Benefit list \<Rightarrow> (int \<times> string list) list" where
  "supportersByRefreshRates validSupporters = fold groupSupporter validSupporters []"

text \<open>The bulk update of one entry of the map.\<close>

definition updateRate :: "int \<times> string list \<Rightarrow> World \<Rightarrow> World" where
  "updateRate e w =
     updateMany
       (\<lambda>f. user_discordUserId f \<in> set (snd e) \<and> refreshRateSeconds f \<noteq> Some (fst e))
       (\<lambda>f. f\<lparr>refreshRateSeconds := Some (fst e)\<rparr>)
       w"

text \<open>
  The updates of \<open>Promise.all\<close> are issued in the order of the map's entries and are applied
  in that order here.
\<close>

definition syncRefreshRates :: "Service \<Rightarrow> World \<Rightarrow> World" where
  "syncRefreshRates svc w =
     (let benefits = getBenefitsOfAllDiscordUsers svc;
          validSupporters = filter isSupporter benefits;
          refreshRates = supportersByRefreshRates validSupporters;
          w1 = fold updateRate refreshRates w;
          specialDiscordUserIds = concat (map snd refreshRates)
      in updateMany
           (\<lambda>f. user_discordUserId f \<notin> set specialDiscordUserIds
                \<and> refreshRateSeconds f \<noteq> Some (defaultRefreshRateSeconds svc))
           (\<lambda>f. f\<lparr>refreshRateSeconds := Some (defaultRefreshRateSeconds svc)\<rparr>)
           w1)"

section \<open>Dispatching a refresh rate\<close>

text \<open>
  The filter of \<open>getFeedsQuery\<close>: the rate, no disablement code on the feed, and for one
  of the two kinds a first element and an element without a disablement code.
\<close>

definition getFeedsQuery :: "int \<Rightarrow> UserFeed \<Rightarrow> bool" where
  "getFeedsQuery rate f =
     ((refreshRateSeconds f = Some rate \<and> disabledCode f = None)
      \<and> ((discordChannels (connections f) \<noteq> []
           \<and> list_ex (\<lambda>c. con_disabledCode c = None) (discordChannels (connections f)))
         \<or> (discordWebhooks (connections f) \<noteq> []
           \<and> list_ex (\<lambda>c. con_disabledCode c = None) (discordWebhooks (connections f)))))"

text \<open>\<open>distinct("url")\<close>: each URL of a matching feed once; the store fixes no order.\<close>

definition getUrlsMatchingRefreshRate :: "int \<Rightarrow> World \<Rightarrow> string list" where
  "getUrlsMatchingRefreshRate rate w = remdups (map url (filter (getFeedsQuery rate) (feeds w)))"

definition getFeedCursorMatchingRefreshRate :: "int \<Rightarrow> World \<Rightarrow> UserFeed list" where
  "getFeedCursorMatchingRefreshRate rate w = filter (getFeedsQuery rate) (feeds w)"

text \<open>lodash's \<open>chunk\<close>.\<close>

function chunk :: "nat \<Rightarrow> 'a list \<Rightarrow> 'a list list" where
  "chunk n xs = (if n = 0 \<or> xs = [] then [] else take n xs # chunk n (drop n xs))"
  by pat_completeness auto
termination
  by (relation "measure (\<lambda>(n, xs). length xs)") auto

declare chunk.simps [simp del]

text \<open>\<open>new Map(entries)\<close> read by \<open>get\<close>: the last entry of a key wins.\<close>

definition dailyLimitsByDiscordUserId :: "Benefit list \<Rightarrow> string \<Rightarrow> int option" where
  "dailyLimitsByDiscordUserId allBenefits =
     fold (\<lambda>benefit m. m(discordUserId benefit \<mapsto> maxDailyArticles benefit)) allBenefits Map.empty"

text \<open>\<open>a || b\<close> on a number that may be \<open>undefined\<close>: \<open>undefined\<close> and \<open>0\<close> are falsy.\<close>

definition numberOr :: "int option \<Rightarrow> int \<Rightarrow> int" where
  "numberOr a b = (case a of None \<Rightarrow> b | Some n \<Rightarrow> if n = 0 then b else n)"

text \<open>
  The two handlers are the caller's; a pass is described by the arguments of each of their
  invocations, in order. An element \<open>{url}\<close> of a batch is given by its URL.
\<close>

record Dispatch =
  urlsHandlerCalls :: "string list list"
  feedHandlerCalls :: "(UserFeed \<times> int) list"

definition handleRefreshRate :: "Service \<Rightarrow> int \<Rightarrow> World \<Rightarrow> Dispatch \<times> World" where
  "handleRefreshRate svc rate w =
     (let w1 = syncRefreshRates svc w;
          allBenefits = getBenefitsOfAllDiscordUsers svc;
          dailyLimits = dailyLimitsByDiscordUserId allBenefits;
          urls = getUrlsMatchingRefreshRate rate w1;
          w2 = logger Debug
                 [Str ''Found '', Num (int (length urls)), Str '' urls with refresh rate '', Num rate] w1;
          feedCursor = getFeedCursorMatchingRefreshRate rate w2
      in (\<lparr>urlsHandlerCalls = chunk 25 urls,
           feedHandlerCalls =
             map (\<lambda>feed. (feed, numberOr (dailyLimits (user_discordUserId feed))
                                   (maxDailyArticlesDefault svc)))
               feedCursor\<rparr>,
          w2))"

section \<open>Replaying outcome events\<close>

text \<open>
  The three subscriptions, as the broker drives them: one message at a time, each handled
  to its end; a handler that throws leaves the store as it was.
\<close>

datatype OutcomeEvent =
    UrlRequestFailure string
  | FeedRejected string string
  | RejectedArticle string string string

fun handleEvent :: "Service \<Rightarrow> OutcomeEvent \<Rightarrow> World \<Rightarrow> (error + unit) \<times> World" where
  "handleEvent svc (UrlRequestFailure u) w = handleUrlRequestFailureEvent svc u w"
| "handleEvent svc (FeedRejected feedId rejectedCode) w =
     handleFeedRejectedDisableFeed svc feedId rejectedCode w"
| "handleEvent svc (RejectedArticle feedId mediumId rejectedCode) w =
     handleRejectedArticleDisableConnection svc feedId mediumId rejectedCode w"

definition replay :: "Service \<Rightarrow> OutcomeEvent list \<Rightarrow> World \<Rightarrow> World" where
  "replay svc evs w = fold (\<lambda>ev v. snd (handleEvent svc ev v)) evs w"

section \<open>Sample data\<close>

definition sampleChannel :: "string \<Rightarrow> FeedConnectionDisabledCode option \<Rightarrow> ChannelDetails Connection" where
  "sampleChannel cid code =
     \<lparr>conn_id = cid, con_disabledCode = code, filters = None, mentions = Undefined,
      splitOptions = Undefined,
      details = \<lparr>channel = \<lparr>channel_id = Str ''c1'', channel_type = Undefined, channel_guildId = Str ''g1''\<rparr>,
                 channel_content = Str ''new article'', channel_embeds = Arr [],
                 forumThreadTitle = Undefined, forumThreadTags = Undefined,
                 channel_formatter = Undefined, channel_placeholderLimits = Undefined,
                 channel_enablePlaceholderFallback = Undefined\<rparr>\<rparr>"

definition sampleWebhook :: "string \<Rightarrow> FeedConnectionDisabledCode option \<Rightarrow> WebhookDetails Connection" where
  "sampleWebhook cid code =
     \<lparr>conn_id = cid, con_disabledCode = code, filters = None, mentions = Undefined,
      splitOptions = Undefined,
      details = \<lparr>webhook = \<lparr>webhook_id = Str ''h1'', webhook_token = Str ''t1'', webhook_name = Undefined,
                             webhook_iconUrl = Undefined, webhook_guildId = Str ''g1''\<rparr>,
                 webhook_content = Str ''new article'', webhook_embeds = Arr [],
                 webhook_formatter = Undefined, webhook_placeholderLimits = Undefined,
                 webhook_enablePlaceholderFallback = Undefined\<rparr>\<rparr>"

definition sampleFeed ::
  "string \<Rightarrow> string \<Rightarrow> int \<Rightarrow> string \<Rightarrow> UserFeedDisabledCode option \<Rightarrow>
   ChannelDetails Connection list \<Rightarrow> WebhookDetails Connection list \<Rightarrow> UserFeed" where
  "sampleFeed fid u rate owner code chans hooks =
     \<lparr>feed_id = fid, url = u, refreshRateSeconds = Some rate, user_discordUserId = owner,
      disabledCode = code, healthStatus = Ok, passingComparisons = None,
      blockingComparisons = None, formatOptions = Undefined, dateCheckOptions = Undefined,
      connections = \<lparr>discordChannels = chans, discordWebhooks = hooks\<rparr>\<rparr>"

definition sampleBenefit :: "string \<Rightarrow> int \<Rightarrow> int \<Rightarrow> bool \<Rightarrow> Benefit" where
  "sampleBenefit uid rate daily supporter =
     \<lparr>discordUserId = uid, benefit_refreshRateSeconds = rate, maxUserFeeds = 5,
      maxDailyArticles = daily, isSupporter = supporter\<rparr>"

text \<open>A service with a default rate of ten minutes and reject-code tables of one entry each.\<close>

definition sampleService :: "Benefit list \<Rightarrow> Service" where
  "sampleService benefits =
     \<lparr>BACKEND_API_DEFAULT_REFRESH_RATE_MINUTES = 10,
      getBenefitsOfAllDiscordUsers = benefits,
      maxDailyArticlesDefault = 50,
      getUserFeedDisableCodeByFeedRejectCode =
        (\<lambda>c. if c = ''invalid-feed'' then Inr (OtherUserFeedDisabledCode ''INVALID_FEED'')
              else Inl (Error ''unhandled feed reject code'')),
      getConnectionDisableCodeByArticleRejectCode =
        (\<lambda>c. if c = ''forbidden'' then Inr (OtherFeedConnectionDisabledCode ''MISSING_PERMISSIONS'')
              else Inl (Error ''unhandled article reject code'')),
      castDiscordContentForMedium = (\<lambda>v. v),
      castDiscordEmbedsForMedium = (\<lambda>v. v),
      queueName = (\<lambda>q. ''queue'')\<rparr>"

definition sampleWorld :: "UserFeed list \<Rightarrow> World" where
  "sampleWorld fs = \<lparr>feeds = fs, updateLog = [], logs = [], published = [], dateNow = 1700000000000\<rparr>"

text \<open>Two enabled feeds on one URL, and a third feed on another URL.\<close>

definition threeFeeds :: "UserFeed list" where
  "threeFeeds =
     [sampleFeed ''f1'' ''http://x'' 600 ''u1'' None [sampleChannel ''a'' None] [],
      sampleFeed ''f2'' ''http://x'' 600 ''u2'' None [] [sampleWebhook ''b'' None],
      sampleFeed ''f3'' ''http://y'' 600 ''u1'' None [sampleChannel ''c'' None] []]"

section \<open>Reading a published delivery event\<close>

definition mediumsOf :: "Message \<Rightarrow> jsval" where
  "mediumsOf m = optGet (optGet (payload m) ''data'') ''mediums''"

definition mediumIds :: "jsval \<Rightarrow> jsval list" where
  "mediumIds v = (case v of Arr ms \<Rightarrow> map (\<lambda>m. optGet m ''id'') ms | _ \<Rightarrow> [])"

section \<open>Sticky disablement codes\<close>

text \<open>
  A code that was set before is the same code after; an absent one may become anything.
  For a feed: its own code, and the code of every connection of either kind, position by
  position, with the lists as long as before.
\<close>

definition stickyCode :: "'a option \<Rightarrow> 'a option \<Rightarrow> bool" where
  "stickyCode before after = (before = None \<or> after = before)"

definition stickyConnections :: "'d Connection list \<Rightarrow> 'd Connection list \<Rightarrow> bool" where
  "stickyConnections cs cs' =
     list_all2 (\<lambda>c c'. stickyCode (con_disabledCode c) (con_disabledCode c')) cs cs'"

definition stickyFeed :: "UserFeed \<Rightarrow> UserFeed \<Rightarrow> bool" where
  "stickyFeed f f' =
     (stickyCode (disabledCode f) (disabledCode f')
      \<and> stickyConnections (discordChannels (connections f)) (discordChannels (connections f'))
      \<and> stickyConnections (discordWebhooks (connections f)) (discordWebhooks (connections f')))"

text \<open>A feed and a channel that are already disabled, and events that address them.\<close>

definition disabledWorld :: World where
  "disabledWorld = sampleWorld
     [sampleFeed ''f1'' ''http://x'' 600 ''u1'' (Some (OtherUserFeedDisabledCode ''MANUAL''))
        [sampleChannel ''a'' (Some Manual)] [sampleWebhook ''b'' None]]"

definition replayedEvents :: "OutcomeEvent list" where
  "replayedEvents =
     [UrlRequestFailure ''http://x'', FeedRejected ''f1'' ''invalid-feed'',
      RejectedArticle ''f1'' ''a'' ''forbidden'', RejectedArticle ''f1'' ''b'' ''forbidden'',
      UrlRequestFailure ''http://x'']"

section \<open>The effect of a destination rejection\<close>

text \<open>
  What a destination-rejection event for medium id \<open>mediumId\<close> does to one connection of
  the feed it names: a connection with that id and no disablement code receives the code.
\<close>

definition markMatching :: "string \<Rightarrow> FeedConnectionDisabledCode \<Rightarrow> 'd Connection \<Rightarrow> 'd Connection" where
  "markMatching mediumId code c =
     (if conn_id c = mediumId \<and> con_disabledCode c = None then c\<lparr>con_disabledCode := Some code\<rparr> else c)"

text \<open>
  One round of the handler's inner loop, seen from the list of connections and from the
  feed that the update addresses.
\<close>

definition disableAtInList ::
  "string \<Rightarrow> FeedConnectionDisabledCode \<Rightarrow> string list \<Rightarrow> nat \<Rightarrow> 'd Connection list \<Rightarrow> 'd Connection list" where
  "disableAtInList mediumId code ids j cs =
     (if ids ! j = mediumId \<and> j < length cs \<and> con_disabledCode (cs ! j) = None
      then setCode code j cs else cs)"

definition disableAtInFeed ::
  "string \<Rightarrow> FeedConnectionDisabledCode \<Rightarrow> ConnectionKey \<Rightarrow> string list \<Rightarrow> nat \<Rightarrow> UserFeed \<Rightarrow> UserFeed" where
  "disableAtInFeed mediumId code k ids j f =
     (if ids ! j = mediumId \<and> disabledCodeAbsentAt k j f then setDisabledCodeAt k j code f else f)"

text \<open>
  A feed with one channel and three webhooks, and a second feed one of whose channels has
  the id of the first feed's third webhook.
\<close>

definition rejectionWorld :: World where
  "rejectionWorld = sampleWorld
     [sampleFeed ''f1'' ''http://x'' 600 ''u1'' None
        [sampleChannel ''c0'' None]
        [sampleWebhook ''h0'' None, sampleWebhook ''h1'' None, sampleWebhook ''h2'' None],
      sampleFeed ''f2'' ''http://y'' 600 ''u2'' None [sampleChannel ''h2'' None] []]"

section \<open>What a synchronisation does to one feed\<close>

text \<open>
  The bulk update of one entry of the map, and the whole of \<open>syncRefreshRates\<close>, seen from
  a single feed.
\<close>

definition rateStep :: "int \<times> string list \<Rightarrow> UserFeed \<Rightarrow> UserFeed" where
  "rateStep e f =
     (if user_discordUserId f \<in> set (snd e) \<and> refreshRateSeconds f \<noteq> Some (fst e)
      then f\<lparr>refreshRateSeconds := Some (fst e)\<rparr> else f)"

definition syncFeed :: "Service \<Rightarrow> UserFeed \<Rightarrow> UserFeed" where
  "syncFeed svc f =
     (let g = supportersByRefreshRates (filter isSupporter (getBenefitsOfAllDiscordUsers svc));
          f1 = fold rateStep g f
      in if user_discordUserId f1 \<notin> set (concat (map snd g))
            \<and> refreshRateSeconds f1 \<noteq> Some (defaultRefreshRateSeconds svc)
         then f1\<lparr>refreshRateSeconds := Some (defaultRefreshRateSeconds svc)\<rparr> else f1)"

text \<open>
  The grouping loop's result for a list of supporters: one entry per rate, holding the
  account ids of the supporters of that rate.
\<close>

definition grouped :: "(int \<times> string list) list \<Rightarrow> Benefit list \<Rightarrow> bool" where
  "grouped g vs =
     (distinct (map fst g)
      \<and> (\<forall>r ids. (r, ids) \<in> set g \<longrightarrow>
            set ids = {discordUserId s |s. s \<in> set vs \<and> benefit_refreshRateSeconds s = r})
      \<and> (\<forall>s \<in> set vs. benefit_refreshRateSeconds s \<in> fst ` set g))"

text \<open>
  The data model has one benefit record per account; what the second run of a
  synchronisation needs of it is that the supporter records of an account agree on the rate.
\<close>

definition oneRatePerSupporter :: "Benefit list \<Rightarrow> bool" where
  "oneRatePerSupporter benefits =
     (\<forall>b \<in> set benefits. \<forall>b' \<in> set benefits.
        isSupporter b \<and> isSupporter b' \<and> discordUserId b' = discordUserId b
          \<longrightarrow> benefit_refreshRateSeconds b' = benefit_refreshRateSeconds b)"

text \<open>A supporter entitled to 300 seconds and an account without a qualifying benefit.\<close>

definition syncService :: Service where
  "syncService = sampleService
     [sampleBenefit ''u1'' 300 500 True, sampleBenefit ''u4'' 120 50 False]"

definition syncWorld :: World where
  "syncWorld = sampleWorld
     [sampleFeed ''f1'' ''http://x'' 600 ''u1'' None [sampleChannel ''a'' None] [],
      sampleFeed ''f3'' ''http://z'' 120 ''u4'' None [sampleChannel ''c'' None] []]"

section \<open>Candidates of a dispatch pass\<close>

text \<open>A feed has an enabled destination when a connection of some kind has no disablement code.\<close>

definition hasEnabledDestination :: "UserFeed \<Rightarrow> bool" where
  "hasEnabledDestination f =
     (list_ex (\<lambda>c. con_disabledCode c = None) (discordChannels (connections f))
      \<or> list_ex (\<lambda>c. con_disabledCode c = None) (discordWebhooks (connections f)))"

text \<open>
  Three feeds of one account: one with an enabled channel, one whose only channel is
  disabled, and one that is itself disabled; and a service whose only benefit record grants
  zero daily articles.
\<close>

definition dispatchWorld :: World where
  "dispatchWorld = sampleWorld
     [sampleFeed ''f1'' ''http://x'' 600 ''u1'' None [sampleChannel ''a'' None] [],
      sampleFeed ''f2'' ''http://y'' 300 ''u1'' None [sampleChannel ''b'' (Some Manual)] [],
      sampleFeed ''f3'' ''http://z'' 300 ''u1'' (Some FailedRequests) [sampleChannel ''c'' None] []]"

definition zeroLimitService :: Service where
  "zeroLimitService = sampleService [sampleBenefit ''u1'' 300 0 True]"

section \<open>Properties of the outcome-event handlers\<close>

lemma updateMany_feeds_nth:
  "i < length (feeds w) \<Longrightarrow>
   feeds (updateMany flt upd w) ! i = (if flt (feeds w ! i) then upd (feeds w ! i) else feeds w ! i)"
  by (simp add: updateMany_def)

lemma updateMany_length: "length (feeds (updateMany flt upd w)) = length (feeds w)"
  by (simp add: updateMany_def)

text \<open>
  C5. A fetch-failure event for URL \<open>u\<close> issues one bulk update. Every feed whose URL is
  \<open>u\<close> and whose disablement code is absent receives the code \<open>FailedRequests\<close> and the
  health status \<open>Failed\<close>, its other fields unchanged; every feed with another URL and every
  feed that already carries a code is left as it was. The handler returns normally.
\<close>

theorem handleUrlRequestFailureEvent_effect:
  assumes "handleUrlRequestFailureEvent svc u w = (r, w')"
  shows "r = Inr ()
     \<and> length (feeds w') = length (feeds w)
     \<and> length (updateLog w') = Suc (length (updateLog w))
     \<and> (\<forall>i < length (feeds w).
          (url (feeds w ! i) = u \<and> disabledCode (feeds w ! i) = None \<longrightarrow>
             feeds w' ! i = (feeds w ! i)\<lparr>disabledCode := Some FailedRequests, healthStatus := Failed\<rparr>)
        \<and> (url (feeds w ! i) \<noteq> u \<or> disabledCode (feeds w ! i) \<noteq> None \<longrightarrow>
             feeds w' ! i = feeds w ! i))"
  using assms
  by (auto simp: handleUrlRequestFailureEvent_def Let_def updateMany_def logger_def)

theorem handleUrlRequestFailureEvent_effect_witness:
  "fst (handleUrlRequestFailureEvent (sampleService []) ''http://x'' (sampleWorld threeFeeds)) = Inr ()
     \<and> map disabledCode
         (feeds (snd (handleUrlRequestFailureEvent (sampleService []) ''http://x'' (sampleWorld threeFeeds))))
       = [Some FailedRequests, Some FailedRequests, None]
     \<and> map healthStatus
         (feeds (snd (handleUrlRequestFailureEvent (sampleService []) ''http://x'' (sampleWorld threeFeeds))))
       = [Failed, Failed, Ok]"
  using handleUrlRequestFailureEvent_effect
    [of "sampleService []" "''http://x''" "sampleWorld threeFeeds"
        "fst (handleUrlRequestFailureEvent (sampleService []) ''http://x'' (sampleWorld threeFeeds))"
        "snd (handleUrlRequestFailureEvent (sampleService []) ''http://x'' (sampleWorld threeFeeds))"]
  by (simp add: handleUrlRequestFailureEvent_def updateMany_def logger_def sampleWorld_def
        threeFeeds_def sampleFeed_def)

text \<open>
  C7. A feed-rejection event whose feed id matches no stored feed returns normally; the
  only effect is one warning in the log. The store, the record of update operations and the
  bus are as before, whatever the reject code and whatever the reject-code table does.
\<close>

theorem handleFeedRejectedDisableFeed_not_found:
  assumes "\<forall>f \<in> set (feeds w). feed_id f \<noteq> feedId"
  shows "handleFeedRejectedDisableFeed svc feedId rejectedCode w =
           (Inr (),
            w\<lparr>logs := logs w @
               [(Warn, [Str ''No feed with ID '', Str feedId, Str '' was found when attempting to'',
                        Str '' handle message from '', Str (queueName svc FeedRejectedDisableFeed)])]\<rparr>)"
proof -
  have "findById feedId w = None"
    using assms by (simp add: findById_def find_None_iff)
  then show ?thesis
    by (simp add: handleFeedRejectedDisableFeed_def logger_def)
qed

theorem handleFeedRejectedDisableFeed_not_found_witness:
  "fst (handleFeedRejectedDisableFeed (sampleService []) ''f9'' ''invalid-feed'' (sampleWorld threeFeeds)) = Inr ()
   \<and> feeds (snd (handleFeedRejectedDisableFeed (sampleService []) ''f9'' ''invalid-feed'' (sampleWorld threeFeeds)))
       = threeFeeds
   \<and> updateLog (snd (handleFeedRejectedDisableFeed (sampleService []) ''f9'' ''invalid-feed'' (sampleWorld threeFeeds)))
       = []
   \<and> map fst (logs (snd (handleFeedRejectedDisableFeed (sampleService []) ''f9'' ''invalid-feed'' (sampleWorld threeFeeds))))
       = [Warn]"
  using handleFeedRejectedDisableFeed_not_found
    [of "sampleWorld threeFeeds" "''f9''" "sampleService []" "''invalid-feed''"]
  by (simp add: sampleWorld_def threeFeeds_def sampleFeed_def)

section \<open>Properties of the emitters\<close>

text \<open>
  C9, as the code has it. The single fetch-request emitter publishes one message on the
  \<open>UrlFetch\<close> queue whose payload is \<open>{data: {url: u, rateSeconds: r}}\<close>, the whole
  argument under \<open>data\<close>, and whose expiration is \<open>r * 1000\<close> milliseconds.
\<close>

theorem emitUrlRequestEvent_publishes:
  "published (emitUrlRequestEvent svc u rateSeconds w) =
     published w @
       [\<lparr>queue = UrlFetch,
         payload = Obj [(''data'', Obj [(''url'', Str u), (''rateSeconds'', Num rateSeconds)])],
         expiration = rateSeconds * 1000\<rparr>]"
  by (simp add: emitUrlRequestEvent_def publish_def logger_def)

text \<open>
  C9, as the claim states it, fails: for the URL \<open>http://x\<close> and a rate of 300 seconds the
  payload is not \<open>{data: {url: "http://x"}}\<close>, since \<open>data\<close> also carries the rate.
\<close>

theorem emitUrlRequestEvent_payload_counterexample:
  "map payload (published (emitUrlRequestEvent (sampleService []) ''http://x'' 300 (sampleWorld [])))
     \<noteq> [Obj [(''data'', Obj [(''url'', Str ''http://x'')])]]"
  by (simp add: emitUrlRequestEvent_def publish_def logger_def sampleWorld_def)

text \<open>
  C10. The delivery-event builder publishes exactly one message, on the
  \<open>FeedDeliverArticles\<close> queue, for every feed. Its \<open>mediums\<close> are the feed's channel
  connections without a disablement code, in stored order, followed by its webhook
  connections without a disablement code, in stored order; when every connection of the feed
  is disabled the message still goes out, with an empty list of mediums.
\<close>

theorem emitDeliverFeedArticlesEvent_publishes_one:
  "\<exists>m. published (emitDeliverFeedArticlesEvent svc userFeed maxDaily w) = published w @ [m]
       \<and> queue m = FeedDeliverArticles
       \<and> mediumsOf m =
           Arr (map (discordChannelMedium svc)
                  (filter (\<lambda>c. con_disabledCode c = None) (discordChannels (connections userFeed)))
                @ map (discordWebhookMedium svc)
                  (filter (\<lambda>c. con_disabledCode c = None) (discordWebhooks (connections userFeed))))
       \<and> mediumIds (mediumsOf m) =
           map (\<lambda>c. Str (conn_id c))
             (filter (\<lambda>c. con_disabledCode c = None) (discordChannels (connections userFeed)))
           @ map (\<lambda>c. Str (conn_id c))
             (filter (\<lambda>c. con_disabledCode c = None) (discordWebhooks (connections userFeed)))
       \<and> ((\<forall>c \<in> set (discordChannels (connections userFeed)). con_disabledCode c \<noteq> None)
            \<and> (\<forall>c \<in> set (discordWebhooks (connections userFeed)). con_disabledCode c \<noteq> None)
          \<longrightarrow> mediumsOf m = Arr [])"
  by (simp add: emitDeliverFeedArticlesEvent_def publish_def logger_def mediumsOf_def mediumIds_def
        notDisabled_def [abs_def] discordChannelMedium_def discordWebhookMedium_def comp_def Let_def
        filter_empty_conv)

theorem emitDeliverFeedArticlesEvent_publishes_one_witness:
  "map queue (published (emitDeliverFeedArticlesEvent (sampleService [])
       (sampleFeed ''f1'' ''http://x'' 600 ''u1'' None [sampleChannel ''a'' (Some Manual)] [sampleWebhook ''b'' (Some Manual)])
       50 (sampleWorld []))) = [FeedDeliverArticles]
   \<and> map mediumsOf (published (emitDeliverFeedArticlesEvent (sampleService [])
       (sampleFeed ''f1'' ''http://x'' 600 ''u1'' None [sampleChannel ''a'' (Some Manual)] [sampleWebhook ''b'' (Some Manual)])
       50 (sampleWorld []))) = [Arr []]"
  using emitDeliverFeedArticlesEvent_publishes_one
    [of "sampleService []"
        "sampleFeed ''f1'' ''http://x'' 600 ''u1'' None [sampleChannel ''a'' (Some Manual)] [sampleWebhook ''b'' (Some Manual)]"
        50 "sampleWorld []"]
  by (auto simp: sampleWorld_def sampleFeed_def sampleChannel_def sampleWebhook_def)

section \<open>Disablement is monotonic\<close>

lemma stickyConnections_refl: "stickyConnections cs cs"
  by (simp add: stickyConnections_def stickyCode_def list_all2_refl)

lemma stickyConnections_trans:
  "stickyConnections a b \<Longrightarrow> stickyConnections b c \<Longrightarrow> stickyConnections a c"
  unfolding stickyConnections_def list_all2_conv_all_nth stickyCode_def
  by (metis option.distinct(1) option.exhaust)

lemma stickyFeed_refl: "stickyFeed f f"
  by (simp add: stickyFeed_def stickyConnections_refl stickyCode_def)

lemma stickyFeed_trans: "stickyFeed a b \<Longrightarrow> stickyFeed b c \<Longrightarrow> stickyFeed a c"
  by (auto simp: stickyFeed_def stickyCode_def intro: stickyConnections_trans)

lemma stickyFeeds_refl: "list_all2 stickyFeed fs fs"
  by (simp add: list_all2_refl stickyFeed_refl)

lemma stickyFeeds_trans:
  "list_all2 stickyFeed a b \<Longrightarrow> list_all2 stickyFeed b c \<Longrightarrow> list_all2 stickyFeed a c"
  unfolding list_all2_conv_all_nth
  by (metis stickyFeed_trans)

lemma updateMany_sticky:
  assumes "\<And>f. flt f \<Longrightarrow> stickyFeed f (upd f)"
  shows "list_all2 stickyFeed (feeds w) (feeds (updateMany flt upd w))"
  using assms by (simp add: updateMany_def list_all2_map2 list_all2_refl stickyFeed_refl)

lemma updateFirst_sticky:
  assumes "\<And>f. flt f \<Longrightarrow> stickyFeed f (upd f)"
  shows "list_all2 stickyFeed fs (updateFirst flt upd fs)"
  using assms by (induction fs) (simp_all add: stickyFeed_refl stickyFeeds_refl)

lemma updateOne_sticky:
  assumes "\<And>f. flt f \<Longrightarrow> stickyFeed f (upd f)"
  shows "list_all2 stickyFeed (feeds w) (feeds (updateOne flt upd w))"
  using assms by (simp add: updateOne_def updateFirst_sticky)

lemma setCode_sticky:
  assumes "i < length cs \<Longrightarrow> con_disabledCode (cs ! i) = None"
  shows "stickyConnections cs (setCode code i cs)"
  using assms
  by (auto simp: stickyConnections_def setCode_def list_all2_conv_all_nth nth_list_update stickyCode_def)

lemma setDisabledCodeAt_sticky:
  assumes "disabledCodeAbsentAt k i f"
  shows "stickyFeed f (setDisabledCodeAt k i code f)"
  using assms
  by (cases k) (auto simp: stickyFeed_def stickyCode_def stickyConnections_refl intro!: setCode_sticky split: if_splits)

lemma disableConnectionAt_sticky:
  "list_all2 stickyFeed (feeds w) (feeds (disableConnectionAt feedId mediumId code k ids i w))"
proof (cases "ids ! i \<noteq> mediumId")
  case True
  then show ?thesis by (simp add: disableConnectionAt_def stickyFeeds_refl)
next
  case False
  have "list_all2 stickyFeed (feeds w)
          (feeds (updateOne (\<lambda>f. feed_id f = feedId \<and> disabledCodeAbsentAt k i f)
                    (setDisabledCodeAt k i code) w))"
    by (rule updateOne_sticky) (simp add: setDisabledCodeAt_sticky)
  with False show ?thesis by (simp add: disableConnectionAt_def)
qed

lemma fold_sticky:
  assumes "\<And>x v. list_all2 stickyFeed (feeds v) (feeds (step x v))"
  shows "list_all2 stickyFeed (feeds w) (feeds (fold step xs w))"
proof (induction xs arbitrary: w)
  case Nil
  show ?case by (simp add: stickyFeeds_refl)
next
  case (Cons x xs)
  show ?case using assms[of w x] Cons.IH[of "step x w"]
    by (auto intro: stickyFeeds_trans)
qed

lemma handleEvent_sticky:
  "list_all2 stickyFeed (feeds w) (feeds (snd (handleEvent svc ev w)))"
proof (cases ev)
  case (UrlRequestFailure u)
  have "list_all2 stickyFeed (feeds w)
          (feeds (updateMany (\<lambda>f. url f = u \<and> disabledCode f = None)
             (\<lambda>f. f\<lparr>disabledCode := Some FailedRequests, healthStatus := Failed\<rparr>) 
             (logger Debug [Str ''handling url request failure event for url '', Str u] w)))"
    using updateMany_sticky[of "\<lambda>f. url f = u \<and> disabledCode f = None"
        "\<lambda>f. f\<lparr>disabledCode := Some FailedRequests, healthStatus := Failed\<rparr>"
        "logger Debug [Str ''handling url request failure event for url '', Str u] w"]
    by (simp add: stickyFeed_def stickyCode_def stickyConnections_refl logger_def)
  then show ?thesis using UrlRequestFailure
    by (simp add: handleUrlRequestFailureEvent_def Let_def)
next
  case (FeedRejected feedId rejectedCode)
  have "\<And>code. list_all2 stickyFeed (feeds w)
          (feeds (updateOne (\<lambda>f. feed_id f = feedId \<and> disabledCode f = None)
                    (\<lambda>f. f\<lparr>disabledCode := Some code\<rparr>) w))"
    by (rule updateOne_sticky) (simp add: stickyFeed_def stickyCode_def stickyConnections_refl)
  then show ?thesis using FeedRejected
    by (simp add: handleFeedRejectedDisableFeed_def logger_def stickyFeeds_refl
          split: option.splits sum.splits)
next
  case (RejectedArticle feedId mediumId rejectedCode)
  have "\<And>code es. list_all2 stickyFeed (feeds w)
          (feeds (fold (\<lambda>(connectionKey, ids).
                        fold (disableConnectionAt feedId mediumId code connectionKey ids)
                          [0..<length ids]) es w))"
    by (rule fold_sticky) (auto intro: fold_sticky disableConnectionAt_sticky)
  then show ?thesis using RejectedArticle
    by (simp add: handleRejectedArticleDisableConnection_def logger_def stickyFeeds_refl
          split: option.splits sum.splits)
qed

text \<open>
  C2. Replaying any sequence of fetch-failure, feed-rejection and destination-rejection
  events leaves every disablement code that was set, on a feed or on a connection of either
  kind, exactly as it was: the store keeps its feeds and each feed its connections, position
  by position, and a code present before the replay is the code present after it.
\<close>

theorem disablement_is_monotonic:
  "list_all2 stickyFeed (feeds w) (feeds (replay svc evs w))"
  unfolding replay_def
  by (rule fold_sticky) (rule handleEvent_sticky)

lemma replayed_feeds:
  "feeds (replay (sampleService []) replayedEvents disabledWorld) =
     [sampleFeed ''f1'' ''http://x'' 600 ''u1'' (Some (OtherUserFeedDisabledCode ''MANUAL''))
        [sampleChannel ''a'' (Some Manual)]
        [sampleWebhook ''b'' (Some (OtherFeedConnectionDisabledCode ''MISSING_PERMISSIONS''))]]"
  by (simp add: replay_def replayedEvents_def disabledWorld_def sampleWorld_def sampleFeed_def
        sampleService_def sampleChannel_def sampleWebhook_def
        handleUrlRequestFailureEvent_def handleFeedRejectedDisableFeed_def
        handleRejectedArticleDisableConnection_def findById_def updateMany_def updateOne_def
        logger_def connectionEntries_def disableConnectionAt_def setCode_def)

theorem disablement_is_monotonic_witness:
  "map disabledCode (feeds (replay (sampleService []) replayedEvents disabledWorld))
     = [Some (OtherUserFeedDisabledCode ''MANUAL'')]
   \<and> map (\<lambda>f. map con_disabledCode (discordChannels (connections f)))
        (feeds (replay (sampleService []) replayedEvents disabledWorld)) = [[Some Manual]]"
  using disablement_is_monotonic [of disabledWorld "sampleService []" replayedEvents]
  by (simp add: replayed_feeds sampleFeed_def sampleChannel_def)

section \<open>The frame of a destination rejection\<close>

lemma updateFirst_at:
  assumes "distinct (map feed_id fs)" "i < length fs" "feed_id (fs ! i) = feedId"
  shows "updateFirst (\<lambda>f. feed_id f = feedId \<and> P f) upd fs
           = fs[i := if P (fs ! i) then upd (fs ! i) else fs ! i]"
  using assms
proof (induction fs arbitrary: i)
  case Nil
  then show ?case by simp
next
  case (Cons f fs)
  show ?case
  proof (cases i)
    case 0
    have "feeds0": "\<forall>g \<in> set fs. feed_id g \<noteq> feedId"
      using Cons.prems 0 by (auto simp: image_iff)
    have "updateFirst (\<lambda>f. feed_id f = feedId \<and> P f) upd fs = fs"
      using feeds0 by (induction fs) auto
    then show ?thesis using Cons.prems 0 by simp
  next
    case (Suc j)
    then have "fs ! j \<in> set fs" and "feed_id (fs ! j) = feedId"
      using Cons.prems by simp_all
    moreover have "feed_id f \<notin> feed_id ` set fs"
      using Cons.prems(1) by simp
    ultimately have "feed_id f \<noteq> feedId"
      by (metis image_eqI)
    then show ?thesis using Cons.prems Suc Cons.IH[of j] by simp
  qed
qed

lemma disableConnectionAt_at:
  assumes "distinct (map feed_id (feeds w))" "i < length (feeds w)" "feed_id (feeds w ! i) = feedId"
  shows "disableConnectionAt feedId mediumId code k ids j w =
           w\<lparr>feeds := (feeds w)[i := disableAtInFeed mediumId code k ids j (feeds w ! i)],
             updateLog := updateLog (disableConnectionAt feedId mediumId code k ids j w)\<rparr>"
  using updateFirst_at[OF assms, of "disabledCodeAbsentAt k j" "setDisabledCodeAt k j code"]
  by (simp add: disableConnectionAt_def disableAtInFeed_def updateOne_def)

lemma feed_id_disableAtInFeed [simp]: "feed_id (disableAtInFeed mediumId code k ids j f) = feed_id f"
  by (cases k) (simp_all add: disableAtInFeed_def)

lemma fold_disableConnectionAt:
  assumes "distinct (map feed_id (feeds w))" "i < length (feeds w)" "feed_id (feeds w ! i) = feedId"
  shows "feeds (fold (disableConnectionAt feedId mediumId code k ids) js w)
           = (feeds w)[i := fold (disableAtInFeed mediumId code k ids) js (feeds w ! i)]
       \<and> logs (fold (disableConnectionAt feedId mediumId code k ids) js w) = logs w
       \<and> published (fold (disableConnectionAt feedId mediumId code k ids) js w) = published w"
  using assms
proof (induction js arbitrary: w)
  case Nil
  then show ?case by simp
next
  case (Cons j js)
  let ?w1 = "disableConnectionAt feedId mediumId code k ids j w"
  have w1: "?w1 = w\<lparr>feeds := (feeds w)[i := disableAtInFeed mediumId code k ids j (feeds w ! i)],
             updateLog := updateLog ?w1\<rparr>"
    by (rule disableConnectionAt_at[OF Cons.prems])
  have f1: "feeds ?w1 = (feeds w)[i := disableAtInFeed mediumId code k ids j (feeds w ! i)]"
    by (subst w1) simp
  have l1: "logs ?w1 = logs w" by (subst w1) simp
  have p1: "published ?w1 = published w" by (subst w1) simp
  have ids: "map feed_id (feeds ?w1) = map feed_id (feeds w)"
    using Cons.prems(2) unfolding f1 by (simp add: map_update list_update_same_conv)
  have "feeds (fold (disableConnectionAt feedId mediumId code k ids) js ?w1)
           = (feeds ?w1)[i := fold (disableAtInFeed mediumId code k ids) js (feeds ?w1 ! i)]
       \<and> logs (fold (disableConnectionAt feedId mediumId code k ids) js ?w1) = logs ?w1
       \<and> published (fold (disableConnectionAt feedId mediumId code k ids) js ?w1) = published ?w1"
  proof (intro Cons.IH)
    show "distinct (map feed_id (feeds ?w1))" using Cons.prems(1) by (simp add: ids)
    show "i < length (feeds ?w1)" using Cons.prems(2) by (simp add: f1)
    show "feed_id (feeds ?w1 ! i) = feedId" using Cons.prems(2,3) by (simp add: f1)
  qed
  then show ?case using Cons.prems(2) by (simp add: f1 l1 p1)
qed

lemma disableAtInFeed_channels:
  "disableAtInFeed mediumId code DiscordChannels ids j f =
     f\<lparr>connections := (connections f)\<lparr>discordChannels :=
          disableAtInList mediumId code ids j (discordChannels (connections f))\<rparr>\<rparr>"
  by (simp add: disableAtInFeed_def disableAtInList_def setCode_def)

lemma disableAtInFeed_webhooks:
  "disableAtInFeed mediumId code DiscordWebhooks ids j f =
     f\<lparr>connections := (connections f)\<lparr>discordWebhooks :=
          disableAtInList mediumId code ids j (discordWebhooks (connections f))\<rparr>\<rparr>"
  by (simp add: disableAtInFeed_def disableAtInList_def setCode_def)

lemma fold_disableAtInFeed_channels:
  "fold (disableAtInFeed mediumId code DiscordChannels ids) js f =
     f\<lparr>connections := (connections f)\<lparr>discordChannels :=
          fold (disableAtInList mediumId code ids) js (discordChannels (connections f))\<rparr>\<rparr>"
  by (induction js arbitrary: f) (simp_all add: disableAtInFeed_channels)

lemma fold_disableAtInFeed_webhooks:
  "fold (disableAtInFeed mediumId code DiscordWebhooks ids) js f =
     f\<lparr>connections := (connections f)\<lparr>discordWebhooks :=
          fold (disableAtInList mediumId code ids) js (discordWebhooks (connections f))\<rparr>\<rparr>"
  by (induction js arbitrary: f) (simp_all add: disableAtInFeed_webhooks)

lemma fold_disableAtInList_nth:
  assumes "n \<le> length cs"
  shows "length (fold (disableAtInList mediumId code (map conn_id cs)) [0..<n] cs) = length cs
       \<and> (\<forall>k < length cs.
            fold (disableAtInList mediumId code (map conn_id cs)) [0..<n] cs ! k
              = (if k < n then markMatching mediumId code (cs ! k) else cs ! k))"
  using assms
proof (induction n)
  case 0
  then show ?case by simp
next
  case (Suc n)
  let ?cs' = "fold (disableAtInList mediumId code (map conn_id cs)) [0..<n] cs"
  have len: "length ?cs' = length cs"
    and nth: "\<And>k. k < length cs \<Longrightarrow> ?cs' ! k = (if k < n then markMatching mediumId code (cs ! k) else cs ! k)"
    using Suc by simp_all
  have n: "n < length cs" using Suc.prems by simp
  have here: "?cs' ! n = cs ! n" using nth[OF n] by simp
  have step: "fold (disableAtInList mediumId code (map conn_id cs)) [0..<Suc n] cs
                = disableAtInList mediumId code (map conn_id cs) n ?cs'"
    by simp
  have hit: "disableAtInList mediumId code (map conn_id cs) n ?cs'
               = ?cs'[n := markMatching mediumId code (cs ! n)]"
  proof (cases "conn_id (cs ! n) = mediumId \<and> con_disabledCode (cs ! n) = None")
    case True
    then show ?thesis using n len here
      by (simp add: disableAtInList_def setCode_def markMatching_def)
  next
    case False
    have "?cs'[n := cs ! n] = ?cs'"
      using here list_update_id[of ?cs' n] by simp
    with False show ?thesis using n len here
      by (auto simp: disableAtInList_def markMatching_def)
  qed
  show ?case
    unfolding step hit using len nth
    by (simp add: nth_list_update less_Suc_eq)
qed

lemma fold_disableAtInList:
  "fold (disableAtInList mediumId code (map conn_id cs)) [0..<length cs] cs
     = map (markMatching mediumId code) cs"
  using fold_disableAtInList_nth[of "length cs" cs mediumId code]
  by (auto intro: nth_equalityI)

lemma find_feed_id_at:
  "distinct (map feed_id fs) \<Longrightarrow> i < length fs \<Longrightarrow> feed_id (fs ! i) = feedId
     \<Longrightarrow> find (\<lambda>f. feed_id f = feedId) fs = Some (fs ! i)"
proof (induction fs arbitrary: i)
  case Nil
  then show ?case by simp
next
  case (Cons f fs)
  show ?case
  proof (cases i)
    case 0
    then show ?thesis using Cons.prems by simp
  next
    case (Suc j)
    then have "fs ! j \<in> set fs" and "feed_id (fs ! j) = feedId"
      using Cons.prems by simp_all
    moreover have "feed_id f \<notin> feed_id ` set fs"
      using Cons.prems(1) by simp
    ultimately have "feed_id f \<noteq> feedId"
      by (metis image_eqI)
    then show ?thesis using Cons.prems Suc Cons.IH[of j] by simp
  qed
qed

lemma findById_at:
  assumes "distinct (map feed_id (feeds w))" "i < length (feeds w)" "feed_id (feeds w ! i) = feedId"
  shows "findById feedId w = Some (feeds w ! i)"
  using find_feed_id_at[OF assms] by (simp add: findById_def)

text \<open>
  C6. In a store whose feed ids are distinct, a destination-rejection event that names a
  stored feed and whose reject code the table maps to \<open>code\<close> returns normally and
  changes that feed only, and of that feed only its connections: every connection, of either
  kind, whose id is the event's medium id and whose disablement code is absent receives
  \<open>code\<close>; every other connection, every other field of the feed, every other feed, the
  log and the bus are unchanged. A connection with that id that is already disabled keeps
  the code it has.
\<close>

theorem handleRejectedArticleDisableConnection_frame:
  assumes "distinct (map feed_id (feeds w))"
      and "i < length (feeds w)"
      and "feed_id (feeds w ! i) = feedId"
      and "getConnectionDisableCodeByArticleRejectCode svc rejectedCode = Inr code"
  shows "fst (handleRejectedArticleDisableConnection svc feedId mediumId rejectedCode w) = Inr ()
     \<and> feeds (snd (handleRejectedArticleDisableConnection svc feedId mediumId rejectedCode w))
         = (feeds w)[i := (feeds w ! i)\<lparr>connections :=
              \<lparr>discordChannels =
                 map (markMatching mediumId code) (discordChannels (connections (feeds w ! i))),
               discordWebhooks =
                 map (markMatching mediumId code) (discordWebhooks (connections (feeds w ! i)))\<rparr>\<rparr>]
     \<and> logs (snd (handleRejectedArticleDisableConnection svc feedId mediumId rejectedCode w)) = logs w
     \<and> published (snd (handleRejectedArticleDisableConnection svc feedId mediumId rejectedCode w))
         = published w"
proof -
  let ?F = "feeds w ! i"
  let ?cs = "discordChannels (connections ?F)"
  let ?hs = "discordWebhooks (connections ?F)"
  let ?w1 = "fold (disableConnectionAt feedId mediumId code DiscordChannels (map conn_id ?cs))
               [0..<length ?cs] w"
  let ?w2 = "fold (disableConnectionAt feedId mediumId code DiscordWebhooks (map conn_id ?hs))
               [0..<length ?hs] ?w1"
  let ?F1 = "?F\<lparr>connections := (connections ?F)\<lparr>discordChannels := map (markMatching mediumId code) ?cs\<rparr>\<rparr>"
  have run: "handleRejectedArticleDisableConnection svc feedId mediumId rejectedCode w = (Inr (), ?w2)"
    using findById_at[OF assms(1-3)] assms(4)
    by (simp add: handleRejectedArticleDisableConnection_def connectionEntries_def)
  have s1: "feeds ?w1 = (feeds w)[i := ?F1]" "logs ?w1 = logs w" "published ?w1 = published w"
    using fold_disableConnectionAt[OF assms(1-3), of mediumId code DiscordChannels "map conn_id ?cs" "[0..<length ?cs]"]
    by (simp_all add: fold_disableAtInFeed_channels fold_disableAtInList)
  have ids1: "map feed_id (feeds ?w1) = map feed_id (feeds w)"
    using assms(2) by (simp add: s1 map_update list_update_same_conv)
  have pre: "distinct (map feed_id (feeds ?w1))" "i < length (feeds ?w1)" "feed_id (feeds ?w1 ! i) = feedId"
    using assms(1-3) by (simp_all add: ids1) (simp_all add: s1)
  have F1: "feeds ?w1 ! i = ?F1" using assms(2) by (simp add: s1)
  have s2: "feeds ?w2 = (feeds ?w1)[i := ?F1\<lparr>connections := (connections ?F1)\<lparr>discordWebhooks := map (markMatching mediumId code) ?hs\<rparr>\<rparr>]"
       "logs ?w2 = logs ?w1" "published ?w2 = published ?w1"
    using fold_disableConnectionAt[OF pre, of mediumId code DiscordWebhooks "map conn_id ?hs" "[0..<length ?hs]"]
    by (simp_all add: F1 fold_disableAtInFeed_webhooks fold_disableAtInList)
  have eq: "(connections ?F)\<lparr>discordChannels := map (markMatching mediumId code) ?cs,
                            discordWebhooks := map (markMatching mediumId code) ?hs\<rparr>
          = \<lparr>discordChannels = map (markMatching mediumId code) ?cs,
             discordWebhooks = map (markMatching mediumId code) ?hs\<rparr>"
    by (cases "connections ?F") simp
  show ?thesis
    by (simp add: run s2 s1 eq)
qed

theorem handleRejectedArticleDisableConnection_frame_witness:
  "map (\<lambda>f. (map con_disabledCode (discordChannels (connections f)),
              map con_disabledCode (discordWebhooks (connections f))))
     (feeds (snd (handleRejectedArticleDisableConnection (sampleService []) ''f1'' ''h2'' ''forbidden''
                    rejectionWorld)))
     = [([None], [None, None, Some (OtherFeedConnectionDisabledCode ''MISSING_PERMISSIONS'')]),
        ([None], [])]
   \<and> map disabledCode
       (feeds (snd (handleRejectedArticleDisableConnection (sampleService []) ''f1'' ''h2'' ''forbidden''
                    rejectionWorld)))
     = [None, None]"
  using handleRejectedArticleDisableConnection_frame
    [of rejectionWorld 0 "''f1''" "sampleService []" "''forbidden''"
        "OtherFeedConnectionDisabledCode ''MISSING_PERMISSIONS''" "''h2''"]
  by (simp add: rejectionWorld_def sampleWorld_def sampleFeed_def sampleService_def
        sampleChannel_def sampleWebhook_def markMatching_def)

section \<open>Synchronising refresh rates: correctness and idempotence\<close>

lemma mapSet_new: "map_of m k = None \<Longrightarrow> mapSet m k v = m @ [(k, v)]"
  by (simp add: mapSet_def)

lemma mapSet_old:
  "map_of m k = Some old \<Longrightarrow> mapSet m k v = map (\<lambda>(k', v'). if k' = k then (k', v) else (k', v')) m"
  by (simp add: mapSet_def)

lemma grouped_step:
  assumes "grouped g vs"
  shows "grouped (groupSupporter s g) (vs @ [s])"
proof (cases "map_of g (benefit_refreshRateSeconds s)")
  case None
  then have new: "groupSupporter s g = g @ [(benefit_refreshRateSeconds s, [discordUserId s])]"
    by (simp add: groupSupporter_def mapSet_new)
  have nokey: "benefit_refreshRateSeconds s \<notin> fst ` set g"
    using None by (simp add: map_of_eq_None_iff)
  then have fresh: "\<forall>s' \<in> set vs. benefit_refreshRateSeconds s' \<noteq> benefit_refreshRateSeconds s"
    using assms unfolding grouped_def by metis
  have noentry: "\<And>ids. (benefit_refreshRateSeconds s, ids) \<notin> set g"
    using nokey by force
  show ?thesis
    unfolding new grouped_def using assms nokey fresh noentry
    by (auto simp: grouped_def)
next
  case (Some cur)
  let ?r = "benefit_refreshRateSeconds s"
  have upd: "groupSupporter s g =
               map (\<lambda>(k', v'). if k' = ?r then (k', cur @ [discordUserId s]) else (k', v')) g"
    using Some by (simp add: groupSupporter_def mapSet_old)
  have keys: "map fst (groupSupporter s g) = map fst g"
    unfolding upd by (induction g) auto
  have mem: "(?r, cur) \<in> set g"
    using Some by (rule map_of_SomeD)
  have cur: "set cur = {discordUserId s' |s'. s' \<in> set vs \<and> benefit_refreshRateSeconds s' = ?r}"
    using assms mem by (simp add: grouped_def)
  have entries: "\<And>r ids. (r, ids) \<in> set (groupSupporter s g) \<Longrightarrow>
                   (r \<noteq> ?r \<and> (r, ids) \<in> set g) \<or> (r = ?r \<and> ids = cur @ [discordUserId s])"
    unfolding upd by (auto split: if_splits)
  have "\<And>r ids. (r, ids) \<in> set (groupSupporter s g) \<Longrightarrow>
          set ids = {discordUserId s' |s'. s' \<in> set (vs @ [s]) \<and> benefit_refreshRateSeconds s' = r}"
  proof -
    fix r ids assume "(r, ids) \<in> set (groupSupporter s g)"
    then consider "r \<noteq> ?r" "(r, ids) \<in> set g" | "r = ?r" "ids = cur @ [discordUserId s]"
      using entries by blast
    then show "set ids = {discordUserId s' |s'. s' \<in> set (vs @ [s]) \<and> benefit_refreshRateSeconds s' = r}"
    proof cases
      case 1
      then have "set ids = {discordUserId s' |s'. s' \<in> set vs \<and> benefit_refreshRateSeconds s' = r}"
        using assms by (simp add: grouped_def)
      with 1 show ?thesis by auto
    next
      case 2
      then show ?thesis using cur by auto
    qed
  qed
  moreover have "distinct (map fst (groupSupporter s g))"
    using assms by (simp add: keys grouped_def)
  moreover have "\<forall>s' \<in> set (vs @ [s]). benefit_refreshRateSeconds s' \<in> fst ` set (groupSupporter s g)"
  proof -
    have "fst ` set (groupSupporter s g) = fst ` set g"
      using keys by (metis set_map)
    moreover have "?r \<in> fst ` set g" using mem by force
    ultimately show ?thesis using assms by (auto simp: grouped_def)
  qed
  ultimately show ?thesis unfolding grouped_def by blast
qed

lemma grouped_supportersByRefreshRates: "grouped (supportersByRefreshRates vs) vs"
  unfolding supportersByRefreshRates_def
proof (induction vs rule: rev_induct)
  case Nil
  show ?case by (simp add: grouped_def)
next
  case (snoc s vs)
  then show ?case by (simp add: grouped_step)
qed

lemma updateRate_feeds: "feeds (updateRate e w) = map (rateStep e) (feeds w)"
  by (simp add: updateRate_def updateMany_def rateStep_def)

lemma fold_updateRate_feeds: "feeds (fold updateRate g w) = map (fold rateStep g) (feeds w)"
  by (induction g arbitrary: w) (simp_all add: updateRate_feeds)

lemma syncRefreshRates_feeds: "feeds (syncRefreshRates svc w) = map (syncFeed svc) (feeds w)"
  by (simp add: syncRefreshRates_def Let_def updateMany_def fold_updateRate_feeds syncFeed_def)

lemma owner_rateStep [simp]: "user_discordUserId (rateStep e f) = user_discordUserId f"
  by (simp add: rateStep_def)

lemma fold_owner: "user_discordUserId (fold rateStep g f) = user_discordUserId f"
  by (induction g arbitrary: f) simp_all

lemma fold_rateStep:
  assumes "\<forall>e \<in> set g. user_discordUserId f \<in> set (snd e) \<longrightarrow> fst e = r"
  shows "fold rateStep g f =
           (if \<exists>e \<in> set g. user_discordUserId f \<in> set (snd e)
            then f\<lparr>refreshRateSeconds := Some r\<rparr> else f)"
  using assms
proof (induction g arbitrary: f)
  case Nil
  then show ?case by simp
next
  case (Cons e g)
  show ?case
  proof (cases "user_discordUserId f \<in> set (snd e)")
    case True
    then have r: "fst e = r" using Cons.prems by simp
    have step: "rateStep e f = f\<lparr>refreshRateSeconds := Some r\<rparr>"
      using True r by (cases "refreshRateSeconds f = Some r") (simp_all add: rateStep_def)
    have "fold rateStep g (f\<lparr>refreshRateSeconds := Some r\<rparr>) = f\<lparr>refreshRateSeconds := Some r\<rparr>"
      using Cons.IH[of "f\<lparr>refreshRateSeconds := Some r\<rparr>"] Cons.prems by simp
    then show ?thesis using True by (simp add: step)
  next
    case False
    then have "rateStep e f = f" by (simp add: rateStep_def)
    then show ?thesis using False Cons.IH[of f] Cons.prems by simp
  qed
qed

lemma grouped_entry:
  assumes "grouped g vs" "e \<in> set g" "A \<in> set (snd e)"
  shows "\<exists>s \<in> set vs. discordUserId s = A \<and> benefit_refreshRateSeconds s = fst e"
proof -
  have "(fst e, snd e) \<in> set g" using assms(2) by simp
  then have "set (snd e) = {discordUserId s |s. s \<in> set vs \<and> benefit_refreshRateSeconds s = fst e}"
    using assms(1) unfolding grouped_def by blast
  then show ?thesis using assms(3) by auto
qed

lemma grouped_member:
  assumes "grouped g vs" "s \<in> set vs"
  shows "\<exists>e \<in> set g. fst e = benefit_refreshRateSeconds s \<and> discordUserId s \<in> set (snd e)"
proof -
  have "benefit_refreshRateSeconds s \<in> fst ` set g"
    using assms unfolding grouped_def by blast
  then obtain e where e: "e \<in> set g" "fst e = benefit_refreshRateSeconds s" by force
  then have "(benefit_refreshRateSeconds s, snd e) \<in> set g" by (metis prod.collapse)
  then have "set (snd e) = {discordUserId s' |s'. s' \<in> set vs \<and> benefit_refreshRateSeconds s' = benefit_refreshRateSeconds s}"
    using assms(1) unfolding grouped_def by blast
  then have "discordUserId s \<in> set (snd e)" using assms(2) by auto
  then show ?thesis using e by blast
qed

lemma syncFeed_supporter:
  assumes "b \<in> set (getBenefitsOfAllDiscordUsers svc)" "isSupporter b"
      and "discordUserId b = user_discordUserId f"
      and "\<forall>b' \<in> set (getBenefitsOfAllDiscordUsers svc).
             isSupporter b' \<and> discordUserId b' = discordUserId b
               \<longrightarrow> benefit_refreshRateSeconds b' = benefit_refreshRateSeconds b"
  shows "syncFeed svc f = f\<lparr>refreshRateSeconds := Some (benefit_refreshRateSeconds b)\<rparr>"
proof -
  let ?vs = "filter isSupporter (getBenefitsOfAllDiscordUsers svc)"
  let ?g = "supportersByRefreshRates ?vs"
  have g: "grouped ?g ?vs" by (rule grouped_supportersByRefreshRates)
  have b: "b \<in> set ?vs" using assms(1,2) by simp
  have only: "\<forall>e \<in> set ?g. user_discordUserId f \<in> set (snd e) \<longrightarrow> fst e = benefit_refreshRateSeconds b"
  proof (intro ballI impI)
    fix e assume "e \<in> set ?g" "user_discordUserId f \<in> set (snd e)"
    then obtain s where "s \<in> set ?vs" "discordUserId s = user_discordUserId f"
        "benefit_refreshRateSeconds s = fst e"
      using grouped_entry[OF g] by blast
    then show "fst e = benefit_refreshRateSeconds b"
      using assms(3,4) by auto
  qed
  obtain e where e: "e \<in> set ?g" "user_discordUserId f \<in> set (snd e)"
    using grouped_member[OF g b] assms(3) by auto
  have f1: "fold rateStep ?g f = f\<lparr>refreshRateSeconds := Some (benefit_refreshRateSeconds b)\<rparr>"
    using fold_rateStep[OF only] e by auto
  have "user_discordUserId f \<in> set (concat (map snd ?g))"
    using e by auto
  then show ?thesis
    by (simp add: syncFeed_def Let_def f1)
qed

lemma syncFeed_other:
  assumes "\<forall>b \<in> set (getBenefitsOfAllDiscordUsers svc).
             discordUserId b = user_discordUserId f \<longrightarrow> \<not> isSupporter b"
  shows "syncFeed svc f = f\<lparr>refreshRateSeconds := Some (defaultRefreshRateSeconds svc)\<rparr>"
proof -
  let ?vs = "filter isSupporter (getBenefitsOfAllDiscordUsers svc)"
  let ?g = "supportersByRefreshRates ?vs"
  have g: "grouped ?g ?vs" by (rule grouped_supportersByRefreshRates)
  have none: "\<forall>e \<in> set ?g. user_discordUserId f \<notin> set (snd e)"
  proof (intro ballI notI)
    fix e assume "e \<in> set ?g" "user_discordUserId f \<in> set (snd e)"
    then obtain s where "s \<in> set ?vs" "discordUserId s = user_discordUserId f"
      using grouped_entry[OF g] by blast
    then show False using assms by auto
  qed
  have f1: "fold rateStep ?g f = f"
    using fold_rateStep[of ?g f 0] none by auto
  have "user_discordUserId f \<notin> set (concat (map snd ?g))"
    using none by auto
  then show ?thesis
    by (cases "refreshRateSeconds f = Some (defaultRefreshRateSeconds svc)")
       (simp_all add: syncFeed_def Let_def f1)
qed

text \<open>
  C1. After one run of \<open>syncRefreshRates\<close> the store holds the same feeds, each changed
  in its refresh rate only, whatever the rate was before. If the owning account has a
  supporter benefit, and its supporter benefits name one rate, the feed's rate is that
  entitled rate; if the owning account has no supporter benefit, it is the default rate.
\<close>

theorem syncRefreshRates_assigns_entitled_rate:
  assumes "i < length (feeds w)"
  shows "length (feeds (syncRefreshRates svc w)) = length (feeds w)
     \<and> (\<forall>b \<in> set (getBenefitsOfAllDiscordUsers svc).
          isSupporter b \<and> discordUserId b = user_discordUserId (feeds w ! i)
          \<and> (\<forall>b' \<in> set (getBenefitsOfAllDiscordUsers svc).
                isSupporter b' \<and> discordUserId b' = discordUserId b
                  \<longrightarrow> benefit_refreshRateSeconds b' = benefit_refreshRateSeconds b)
          \<longrightarrow> feeds (syncRefreshRates svc w) ! i
                = (feeds w ! i)\<lparr>refreshRateSeconds := Some (benefit_refreshRateSeconds b)\<rparr>)
     \<and> ((\<forall>b \<in> set (getBenefitsOfAllDiscordUsers svc).
            discordUserId b = user_discordUserId (feeds w ! i) \<longrightarrow> \<not> isSupporter b)
          \<longrightarrow> feeds (syncRefreshRates svc w) ! i
                = (feeds w ! i)\<lparr>refreshRateSeconds := Some (defaultRefreshRateSeconds svc)\<rparr>)"
proof -
  have at: "feeds (syncRefreshRates svc w) ! i = syncFeed svc (feeds w ! i)"
    using assms by (simp add: syncRefreshRates_feeds)
  have len: "length (feeds (syncRefreshRates svc w)) = length (feeds w)"
    by (simp add: syncRefreshRates_feeds)
  have sup: "\<And>b. b \<in> set (getBenefitsOfAllDiscordUsers svc) \<Longrightarrow>
          isSupporter b \<and> discordUserId b = user_discordUserId (feeds w ! i)
          \<and> (\<forall>b' \<in> set (getBenefitsOfAllDiscordUsers svc).
                isSupporter b' \<and> discordUserId b' = discordUserId b
                  \<longrightarrow> benefit_refreshRateSeconds b' = benefit_refreshRateSeconds b)
          \<Longrightarrow> syncFeed svc (feeds w ! i)
                = (feeds w ! i)\<lparr>refreshRateSeconds := Some (benefit_refreshRateSeconds b)\<rparr>"
  proof -
    fix b
    assume b: "b \<in> set (getBenefitsOfAllDiscordUsers svc)"
      and *: "isSupporter b \<and> discordUserId b = user_discordUserId (feeds w ! i)
          \<and> (\<forall>b' \<in> set (getBenefitsOfAllDiscordUsers svc).
                isSupporter b' \<and> discordUserId b' = discordUserId b
                  \<longrightarrow> benefit_refreshRateSeconds b' = benefit_refreshRateSeconds b)"
    from * have s: "isSupporter b" and o: "discordUserId b = user_discordUserId (feeds w ! i)"
      and u: "\<forall>b' \<in> set (getBenefitsOfAllDiscordUsers svc).
                isSupporter b' \<and> discordUserId b' = discordUserId b
                  \<longrightarrow> benefit_refreshRateSeconds b' = benefit_refreshRateSeconds b"
      by blast+
    show "syncFeed svc (feeds w ! i)
            = (feeds w ! i)\<lparr>refreshRateSeconds := Some (benefit_refreshRateSeconds b)\<rparr>"
      by (rule syncFeed_supporter[OF b s o u])
  qed
  have oth: "(\<forall>b \<in> set (getBenefitsOfAllDiscordUsers svc).
            discordUserId b = user_discordUserId (feeds w ! i) \<longrightarrow> \<not> isSupporter b)
          \<Longrightarrow> syncFeed svc (feeds w ! i)
                = (feeds w ! i)\<lparr>refreshRateSeconds := Some (defaultRefreshRateSeconds svc)\<rparr>"
    by (rule syncFeed_other)
  show ?thesis
    unfolding at using len sup oth by blast
qed

theorem syncRefreshRates_assigns_entitled_rate_witness:
  "refreshRateSeconds (feeds syncWorld ! 0) = Some 600
   \<and> refreshRateSeconds (feeds (syncRefreshRates syncService syncWorld) ! 0) = Some 300"
proof -
  let ?b = "sampleBenefit ''u1'' 300 500 True"
  have B: "getBenefitsOfAllDiscordUsers syncService = [?b, sampleBenefit ''u4'' 120 50 False]"
    by (simp add: syncService_def sampleService_def)
  have F: "feeds syncWorld ! 0 = sampleFeed ''f1'' ''http://x'' 600 ''u1'' None [sampleChannel ''a'' None] []"
    by (simp add: syncWorld_def sampleWorld_def)
  have i: "0 < length (feeds syncWorld)"
    by (simp add: syncWorld_def sampleWorld_def)
  have mem: "?b \<in> set (getBenefitsOfAllDiscordUsers syncService)"
    by (simp add: B)
  have pre: "isSupporter ?b \<and> discordUserId ?b = user_discordUserId (feeds syncWorld ! 0)
          \<and> (\<forall>b' \<in> set (getBenefitsOfAllDiscordUsers syncService).
                isSupporter b' \<and> discordUserId b' = discordUserId ?b
                  \<longrightarrow> benefit_refreshRateSeconds b' = benefit_refreshRateSeconds ?b)"
    by (simp add: B F sampleBenefit_def sampleFeed_def)
  have "feeds (syncRefreshRates syncService syncWorld) ! 0
          = (feeds syncWorld ! 0)\<lparr>refreshRateSeconds := Some (benefit_refreshRateSeconds ?b)\<rparr>"
    using syncRefreshRates_assigns_entitled_rate [OF i, of syncService] mem pre by blast
  then show ?thesis
    by (simp add: F sampleFeed_def sampleBenefit_def)
qed

lemma updateMany_none:
  assumes "\<forall>f \<in> set (feeds w). \<not> flt f"
  shows "updateMany flt upd w = w\<lparr>updateLog := updateLog w @ [0]\<rparr>"
proof -
  have "map (\<lambda>f. if flt f then upd f else f) (feeds w) = feeds w"
    using assms by (simp add: map_idI)
  moreover have "filter flt (feeds w) = []"
    using assms by (simp add: filter_empty_conv)
  ultimately show ?thesis by (simp add: updateMany_def)
qed

lemma fold_updateRate_none:
  assumes "\<forall>e \<in> set g. \<forall>f \<in> set (feeds w).
             \<not> (user_discordUserId f \<in> set (snd e) \<and> refreshRateSeconds f \<noteq> Some (fst e))"
  shows "fold updateRate g w = w\<lparr>updateLog := updateLog w @ replicate (length g) 0\<rparr>"
  using assms
proof (induction g arbitrary: w)
  case Nil
  show ?case by simp
next
  case (Cons e g)
  have step: "updateRate e w = w\<lparr>updateLog := updateLog w @ [0]\<rparr>"
    unfolding updateRate_def using Cons.prems by (intro updateMany_none) simp
  have "fold updateRate g (w\<lparr>updateLog := updateLog w @ [0]\<rparr>)
          = (w\<lparr>updateLog := updateLog w @ [0]\<rparr>)
              \<lparr>updateLog := updateLog (w\<lparr>updateLog := updateLog w @ [0]\<rparr>) @ replicate (length g) 0\<rparr>"
    using Cons.prems by (intro Cons.IH) simp
  then show ?case by (simp add: step replicate_app_Cons_same)
qed

text \<open>
  C4. With one rate per supporter account, a second run of \<open>syncRefreshRates\<close> right after
  a first one, the benefits unchanged, writes nothing: it issues one bulk update per rate and
  the one for the default rate, each of them matches no feed, and the store, the log and the
  bus are as the first run left them.
\<close>

theorem syncRefreshRates_second_run_writes_nothing:
  assumes "oneRatePerSupporter (getBenefitsOfAllDiscordUsers svc)"
  shows "syncRefreshRates svc (syncRefreshRates svc w) =
           (syncRefreshRates svc w)
             \<lparr>updateLog := updateLog (syncRefreshRates svc w)
                @ replicate (Suc (length (supportersByRefreshRates
                     (filter isSupporter (getBenefitsOfAllDiscordUsers svc))))) 0\<rparr>"
proof -
  let ?B = "getBenefitsOfAllDiscordUsers svc"
  let ?vs = "filter isSupporter ?B"
  let ?g = "supportersByRefreshRates ?vs"
  let ?w1 = "syncRefreshRates svc w"
  have g: "grouped ?g ?vs" by (rule grouped_supportersByRefreshRates)
  have settled_sup: "\<And>e f'. e \<in> set ?g \<Longrightarrow> f' \<in> set (feeds ?w1) \<Longrightarrow>
           user_discordUserId f' \<in> set (snd e) \<Longrightarrow> refreshRateSeconds f' = Some (fst e)"
  proof -
    fix e f'
    assume e: "e \<in> set ?g" and f': "f' \<in> set (feeds ?w1)"
      and own: "user_discordUserId f' \<in> set (snd e)"
    obtain f where f: "f' = syncFeed svc f"
      using f' by (auto simp: syncRefreshRates_feeds)
    have owner: "user_discordUserId f' = user_discordUserId f"
      unfolding f by (simp add: syncFeed_def Let_def fold_owner)
    obtain s where s: "s \<in> set ?vs" "discordUserId s = user_discordUserId f'"
        "benefit_refreshRateSeconds s = fst e"
      using grouped_entry[OF g e own] by blast
    have sB: "s \<in> set ?B" and sup: "isSupporter s" using s(1) by simp_all
    have uniq: "\<forall>b' \<in> set ?B. isSupporter b' \<and> discordUserId b' = discordUserId s
                  \<longrightarrow> benefit_refreshRateSeconds b' = benefit_refreshRateSeconds s"
      using assms sB sup unfolding oneRatePerSupporter_def by blast
    have own_s: "discordUserId s = user_discordUserId f" using s(2) owner by simp
    have "syncFeed svc f = f\<lparr>refreshRateSeconds := Some (benefit_refreshRateSeconds s)\<rparr>"
      by (rule syncFeed_supporter[OF sB sup own_s uniq])
    then show "refreshRateSeconds f' = Some (fst e)"
      using f s(3) by simp
  qed
  have settled_oth: "\<And>f'. f' \<in> set (feeds ?w1) \<Longrightarrow>
           user_discordUserId f' \<notin> set (concat (map snd ?g)) \<Longrightarrow>
           refreshRateSeconds f' = Some (defaultRefreshRateSeconds svc)"
  proof -
    fix f'
    assume f': "f' \<in> set (feeds ?w1)"
      and own: "user_discordUserId f' \<notin> set (concat (map snd ?g))"
    obtain f where f: "f' = syncFeed svc f"
      using f' by (auto simp: syncRefreshRates_feeds)
    have owner: "user_discordUserId f' = user_discordUserId f"
      unfolding f by (simp add: syncFeed_def Let_def fold_owner)
    have "\<forall>b \<in> set ?B. discordUserId b = user_discordUserId f \<longrightarrow> \<not> isSupporter b"
    proof (intro ballI impI notI)
      fix b assume "b \<in> set ?B" "discordUserId b = user_discordUserId f" "isSupporter b"
      then have "b \<in> set ?vs" by simp
      then obtain e where "e \<in> set ?g" "discordUserId b \<in> set (snd e)"
        using grouped_member[OF g] by blast
      then have "user_discordUserId f' \<in> set (concat (map snd ?g))"
        using owner \<open>discordUserId b = user_discordUserId f\<close> by auto
      then show False using own by simp
    qed
    then have "syncFeed svc f = f\<lparr>refreshRateSeconds := Some (defaultRefreshRateSeconds svc)\<rparr>"
      by (rule syncFeed_other)
    then show "refreshRateSeconds f' = Some (defaultRefreshRateSeconds svc)"
      using f by simp
  qed
  have fold1: "fold updateRate ?g ?w1 = ?w1\<lparr>updateLog := updateLog ?w1 @ replicate (length ?g) 0\<rparr>"
    by (rule fold_updateRate_none) (use settled_sup in blast)
  have last: "updateMany
           (\<lambda>f. user_discordUserId f \<notin> set (concat (map snd ?g))
                \<and> refreshRateSeconds f \<noteq> Some (defaultRefreshRateSeconds svc))
           (\<lambda>f. f\<lparr>refreshRateSeconds := Some (defaultRefreshRateSeconds svc)\<rparr>)
           (?w1\<lparr>updateLog := updateLog ?w1 @ replicate (length ?g) 0\<rparr>)
         = (?w1\<lparr>updateLog := updateLog ?w1 @ replicate (length ?g) 0\<rparr>)
             \<lparr>updateLog := updateLog (?w1\<lparr>updateLog := updateLog ?w1 @ replicate (length ?g) 0\<rparr>) @ [0]\<rparr>"
    by (rule updateMany_none) (use settled_oth in auto)
  have "syncRefreshRates svc ?w1 = updateMany
           (\<lambda>f. user_discordUserId f \<notin> set (concat (map snd ?g))
                \<and> refreshRateSeconds f \<noteq> Some (defaultRefreshRateSeconds svc))
           (\<lambda>f. f\<lparr>refreshRateSeconds := Some (defaultRefreshRateSeconds svc)\<rparr>)
           (fold updateRate ?g ?w1)"
    by (simp add: syncRefreshRates_def[of svc ?w1] Let_def)
  then show ?thesis
    unfolding fold1 last by (simp add: replicate_append_same)
qed

lemma syncService_groups:
  "supportersByRefreshRates (filter isSupporter (getBenefitsOfAllDiscordUsers syncService))
     = [(300, [''u1''])]"
  by (simp add: syncService_def sampleService_def sampleBenefit_def supportersByRefreshRates_def
        groupSupporter_def mapSet_def)

lemma syncWorld_first_run: "updateLog (syncRefreshRates syncService syncWorld) = [1, 1]"
  unfolding syncRefreshRates_def Let_def syncService_groups
  by (simp add: updateRate_def updateMany_def
        defaultRefreshRateSeconds_def syncService_def sampleService_def
        syncWorld_def sampleWorld_def sampleFeed_def)

theorem syncRefreshRates_second_run_writes_nothing_witness:
  "oneRatePerSupporter (getBenefitsOfAllDiscordUsers syncService)
   \<and> updateLog (syncRefreshRates syncService syncWorld) = [1, 1]
   \<and> updateLog (syncRefreshRates syncService (syncRefreshRates syncService syncWorld)) = [1, 1, 0, 0]
   \<and> feeds (syncRefreshRates syncService (syncRefreshRates syncService syncWorld))
       = feeds (syncRefreshRates syncService syncWorld)"
proof -
  have h: "oneRatePerSupporter (getBenefitsOfAllDiscordUsers syncService)"
    by (simp add: oneRatePerSupporter_def syncService_def sampleService_def sampleBenefit_def)
  have "syncRefreshRates syncService (syncRefreshRates syncService syncWorld) =
          (syncRefreshRates syncService syncWorld)
             \<lparr>updateLog := updateLog (syncRefreshRates syncService syncWorld) @ [0, 0]\<rparr>"
    using syncRefreshRates_second_run_writes_nothing [OF h, of syncWorld]
    by (simp add: syncService_groups)
  then have "updateLog (syncRefreshRates syncService (syncRefreshRates syncService syncWorld))
               = updateLog (syncRefreshRates syncService syncWorld) @ [0, 0]"
    and "feeds (syncRefreshRates syncService (syncRefreshRates syncService syncWorld))
               = feeds (syncRefreshRates syncService syncWorld)"
    by simp_all
  then show ?thesis using h by (simp add: syncWorld_first_run)
qed

section \<open>Properties of a dispatch pass\<close>

lemma concat_chunk: "0 < n \<Longrightarrow> concat (chunk n xs) = xs"
proof (induction n xs rule: chunk.induct)
  case (1 n xs)
  show ?case
  proof (cases "xs = []")
    case True
    then show ?thesis by (simp add: chunk.simps)
  next
    case False
    then have "concat (chunk n xs) = take n xs @ concat (chunk n (drop n xs))"
      using 1(2) by (subst chunk.simps) simp
    then show ?thesis using 1 False by simp
  qed
qed

lemma getFeedsQuery_enabled:
  "getFeedsQuery rate f \<Longrightarrow>
     refreshRateSeconds f = Some rate \<and> disabledCode f = None \<and> hasEnabledDestination f"
  by (auto simp: getFeedsQuery_def hasEnabledDestination_def)

lemma handleRefreshRate_world:
  "feeds (snd (handleRefreshRate svc rate w)) = feeds (syncRefreshRates svc w)"
  by (simp add: handleRefreshRate_def Let_def logger_def)

lemma handleRefreshRate_feedCalls:
  "map fst (feedHandlerCalls (fst (handleRefreshRate svc rate w)))
     = filter (getFeedsQuery rate) (feeds (syncRefreshRates svc w))"
  by (simp add: handleRefreshRate_def Let_def logger_def getFeedCursorMatchingRefreshRate_def comp_def)

lemma handleRefreshRate_urlCalls:
  "concat (urlsHandlerCalls (fst (handleRefreshRate svc rate w)))
     = remdups (map url (filter (getFeedsQuery rate) (feeds (syncRefreshRates svc w))))"
  by (simp add: handleRefreshRate_def Let_def concat_chunk getUrlsMatchingRefreshRate_def)

text \<open>
  C3. In a dispatch pass for any rate, every feed handed to \<open>feedHandler\<close> is a feed of
  the store as the synchronisation left it, has that rate, carries no disablement code and
  has a destination without a disablement code; every URL of every batch handed to
  \<open>urlsHandler\<close> is the URL of such a feed; and the batches hold exactly the distinct URLs
  of the feeds handed to \<open>feedHandler\<close>, both being drawn from the one query.
\<close>

theorem handleRefreshRate_dispatches_enabled_only:
  "(\<forall>feed \<in> set (map fst (feedHandlerCalls (fst (handleRefreshRate svc rate w)))).
       feed \<in> set (feeds (snd (handleRefreshRate svc rate w)))
       \<and> refreshRateSeconds feed = Some rate \<and> disabledCode feed = None
       \<and> hasEnabledDestination feed)
   \<and> (\<forall>batch \<in> set (urlsHandlerCalls (fst (handleRefreshRate svc rate w))). \<forall>u \<in> set batch.
         \<exists>feed \<in> set (feeds (snd (handleRefreshRate svc rate w))).
           url feed = u \<and> refreshRateSeconds feed = Some rate \<and> disabledCode feed = None
           \<and> hasEnabledDestination feed)
   \<and> concat (urlsHandlerCalls (fst (handleRefreshRate svc rate w)))
       = remdups (map url (map fst (feedHandlerCalls (fst (handleRefreshRate svc rate w)))))"
proof -
  let ?d = "fst (handleRefreshRate svc rate w)"
  let ?w' = "snd (handleRefreshRate svc rate w)"
  have good: "\<And>feed. feed \<in> set (feeds (syncRefreshRates svc w)) \<Longrightarrow> getFeedsQuery rate feed \<Longrightarrow>
          feed \<in> set (feeds ?w')
          \<and> refreshRateSeconds feed = Some rate \<and> disabledCode feed = None
          \<and> hasEnabledDestination feed"
    using getFeedsQuery_enabled by (simp add: handleRefreshRate_world)
  have A: "\<forall>feed \<in> set (map fst (feedHandlerCalls ?d)).
       feed \<in> set (feeds ?w')
       \<and> refreshRateSeconds feed = Some rate \<and> disabledCode feed = None
       \<and> hasEnabledDestination feed"
    unfolding handleRefreshRate_feedCalls using good by simp
  have B: "\<forall>batch \<in> set (urlsHandlerCalls ?d). \<forall>u \<in> set batch.
         \<exists>feed \<in> set (feeds ?w').
           url feed = u \<and> refreshRateSeconds feed = Some rate \<and> disabledCode feed = None
           \<and> hasEnabledDestination feed"
  proof (intro ballI)
    fix batch u
    assume "batch \<in> set (urlsHandlerCalls ?d)" "u \<in> set batch"
    then have "u \<in> set (concat (urlsHandlerCalls ?d))"
      by auto
    then have "u \<in> url ` set (filter (getFeedsQuery rate) (feeds (syncRefreshRates svc w)))"
      unfolding handleRefreshRate_urlCalls by simp
    then obtain feed where "feed \<in> set (feeds (syncRefreshRates svc w))" "getFeedsQuery rate feed"
        "url feed = u"
      by auto
    then show "\<exists>feed \<in> set (feeds ?w').
           url feed = u \<and> refreshRateSeconds feed = Some rate \<and> disabledCode feed = None
           \<and> hasEnabledDestination feed"
      using good by blast
  qed
  have C: "concat (urlsHandlerCalls ?d) = remdups (map url (map fst (feedHandlerCalls ?d)))"
    unfolding handleRefreshRate_urlCalls handleRefreshRate_feedCalls ..
  show ?thesis
    using A B C by (intro conjI)
qed

lemma dispatchWorld_synced:
  "feeds (syncRefreshRates syncService dispatchWorld) =
     [sampleFeed ''f1'' ''http://x'' 300 ''u1'' None [sampleChannel ''a'' None] [],
      sampleFeed ''f2'' ''http://y'' 300 ''u1'' None [sampleChannel ''b'' (Some Manual)] [],
      sampleFeed ''f3'' ''http://z'' 300 ''u1'' (Some FailedRequests) [sampleChannel ''c'' None] []]"
  unfolding syncRefreshRates_def Let_def syncService_groups
  by (simp add: updateRate_def updateMany_def defaultRefreshRateSeconds_def syncService_def
        sampleService_def dispatchWorld_def sampleWorld_def sampleFeed_def)

lemma dispatchWorld_candidates:
  "filter (getFeedsQuery 300) (feeds (syncRefreshRates syncService dispatchWorld)) =
     [sampleFeed ''f1'' ''http://x'' 300 ''u1'' None [sampleChannel ''a'' None] []]"
  unfolding dispatchWorld_synced
  by (simp add: getFeedsQuery_def sampleFeed_def sampleChannel_def)

theorem handleRefreshRate_dispatches_enabled_only_witness:
  "map feed_id (map fst (feedHandlerCalls (fst (handleRefreshRate syncService 300 dispatchWorld))))
     = [''f1'']
   \<and> concat (urlsHandlerCalls (fst (handleRefreshRate syncService 300 dispatchWorld)))
     = [''http://x'']
   \<and> map hasEnabledDestination (feeds (snd (handleRefreshRate syncService 300 dispatchWorld)))
     = [True, False, True]
   \<and> map disabledCode (feeds (snd (handleRefreshRate syncService 300 dispatchWorld)))
     = [None, None, Some FailedRequests]"
proof -
  have a: "map fst (feedHandlerCalls (fst (handleRefreshRate syncService 300 dispatchWorld)))
             = [sampleFeed ''f1'' ''http://x'' 300 ''u1'' None [sampleChannel ''a'' None] []]"
    by (simp only: handleRefreshRate_feedCalls dispatchWorld_candidates)
  have b: "concat (urlsHandlerCalls (fst (handleRefreshRate syncService 300 dispatchWorld)))
             = [''http://x'']"
    unfolding handleRefreshRate_urlCalls dispatchWorld_candidates by (simp add: sampleFeed_def)
  have c: "feeds (snd (handleRefreshRate syncService 300 dispatchWorld)) =
     [sampleFeed ''f1'' ''http://x'' 300 ''u1'' None [sampleChannel ''a'' None] [],
      sampleFeed ''f2'' ''http://y'' 300 ''u1'' None [sampleChannel ''b'' (Some Manual)] [],
      sampleFeed ''f3'' ''http://z'' 300 ''u1'' (Some FailedRequests) [sampleChannel ''c'' None] []]"
    by (simp only: handleRefreshRate_world dispatchWorld_synced)
  show ?thesis
    using handleRefreshRate_dispatches_enabled_only [of syncService 300 dispatchWorld]
    unfolding a b c
    by (simp add: sampleFeed_def sampleChannel_def hasEnabledDestination_def)
qed

lemma dailyLimits_fold:
  assumes "\<forall>b \<in> set benefits. discordUserId b = A \<longrightarrow> maxDailyArticles b = m"
  shows "fold (\<lambda>benefit lim. lim(discordUserId benefit \<mapsto> maxDailyArticles benefit)) benefits m0 A
           = (if \<exists>b \<in> set benefits. discordUserId b = A then Some m else m0 A)"
  using assms by (induction benefits arbitrary: m0) auto

lemma dailyLimits_some:
  assumes "b \<in> set benefits"
      and "\<forall>b' \<in> set benefits. discordUserId b' = discordUserId b
             \<longrightarrow> maxDailyArticles b' = maxDailyArticles b"
  shows "dailyLimitsByDiscordUserId benefits (discordUserId b) = Some (maxDailyArticles b)"
  unfolding dailyLimitsByDiscordUserId_def
  using dailyLimits_fold[OF assms(2), of Map.empty] assms(1) by auto

lemma dailyLimits_none:
  assumes "\<forall>b \<in> set benefits. discordUserId b \<noteq> A"
  shows "dailyLimitsByDiscordUserId benefits A = None"
  unfolding dailyLimitsByDiscordUserId_def
  using dailyLimits_fold[of benefits A 0 Map.empty] assms by auto

lemma handleRefreshRate_limit:
  assumes "(feed, n) \<in> set (feedHandlerCalls (fst (handleRefreshRate svc rate w)))"
  shows "n = numberOr (dailyLimitsByDiscordUserId (getBenefitsOfAllDiscordUsers svc)
                         (user_discordUserId feed))
                      (maxDailyArticlesDefault svc)"
  using assms by (auto simp: handleRefreshRate_def Let_def)

text \<open>
  Away from an entitlement of zero the pass resolves the limit as intended: the
  \<open>maxDailyArticles\<close> passed to \<open>feedHandler\<close> is the owning account's
  max-daily-articles entitlement when the account appears in the benefit list with an
  entitlement other than zero (its records agreeing on it), and is the default when the
  account has no benefit record.
\<close>

lemma handleRefreshRate_limit_nonzero:
  assumes "(feed, n) \<in> set (feedHandlerCalls (fst (handleRefreshRate svc rate w)))"
  shows "(\<forall>b \<in> set (getBenefitsOfAllDiscordUsers svc).
            discordUserId b = user_discordUserId feed \<and> maxDailyArticles b \<noteq> 0
            \<and> (\<forall>b' \<in> set (getBenefitsOfAllDiscordUsers svc).
                  discordUserId b' = discordUserId b \<longrightarrow> maxDailyArticles b' = maxDailyArticles b)
            \<longrightarrow> n = maxDailyArticles b)
       \<and> ((\<forall>b \<in> set (getBenefitsOfAllDiscordUsers svc). discordUserId b \<noteq> user_discordUserId feed)
            \<longrightarrow> n = maxDailyArticlesDefault svc)"
proof -
  note n = handleRefreshRate_limit[OF assms]
  have sup: "\<And>b. b \<in> set (getBenefitsOfAllDiscordUsers svc) \<Longrightarrow>
            discordUserId b = user_discordUserId feed \<Longrightarrow> maxDailyArticles b \<noteq> 0 \<Longrightarrow>
            (\<forall>b' \<in> set (getBenefitsOfAllDiscordUsers svc).
                  discordUserId b' = discordUserId b \<longrightarrow> maxDailyArticles b' = maxDailyArticles b)
            \<Longrightarrow> n = maxDailyArticles b"
  proof -
    fix b
    assume b: "b \<in> set (getBenefitsOfAllDiscordUsers svc)"
      and o: "discordUserId b = user_discordUserId feed" and z: "maxDailyArticles b \<noteq> 0"
      and u: "\<forall>b' \<in> set (getBenefitsOfAllDiscordUsers svc).
                  discordUserId b' = discordUserId b \<longrightarrow> maxDailyArticles b' = maxDailyArticles b"
    have "dailyLimitsByDiscordUserId (getBenefitsOfAllDiscordUsers svc) (user_discordUserId feed)
            = Some (maxDailyArticles b)"
      using dailyLimits_some[OF b u] o by simp
    then show "n = maxDailyArticles b"
      using n z by (simp add: numberOr_def)
  qed
  have oth: "(\<forall>b \<in> set (getBenefitsOfAllDiscordUsers svc). discordUserId b \<noteq> user_discordUserId feed)
            \<Longrightarrow> n = maxDailyArticlesDefault svc"
    using n dailyLimits_none[of "getBenefitsOfAllDiscordUsers svc" "user_discordUserId feed"]
    by (simp add: numberOr_def)
  show ?thesis
    using sup oth by blast
qed

lemma dispatchWorld_calls:
  "feedHandlerCalls (fst (handleRefreshRate syncService 300 dispatchWorld)) =
     [(sampleFeed ''f1'' ''http://x'' 300 ''u1'' None [sampleChannel ''a'' None] [], 500)]"
proof -
  have "feedHandlerCalls (fst (handleRefreshRate syncService 300 dispatchWorld)) =
          map (\<lambda>feed. (feed, numberOr (dailyLimitsByDiscordUserId (getBenefitsOfAllDiscordUsers syncService)
                                          (user_discordUserId feed))
                                (maxDailyArticlesDefault syncService)))
            (filter (getFeedsQuery 300) (feeds (syncRefreshRates syncService dispatchWorld)))"
    by (simp add: handleRefreshRate_def Let_def getFeedCursorMatchingRefreshRate_def logger_def)
  then show ?thesis
    unfolding dispatchWorld_candidates
    by (simp add: dailyLimitsByDiscordUserId_def numberOr_def syncService_def sampleService_def
          sampleBenefit_def sampleFeed_def)
qed

lemma handleRefreshRate_limit_nonzero_example:
  "(sampleFeed ''f1'' ''http://x'' 300 ''u1'' None [sampleChannel ''a'' None] [], 500)
     \<in> set (feedHandlerCalls (fst (handleRefreshRate syncService 300 dispatchWorld)))
   \<and> sampleBenefit ''u1'' 300 500 True \<in> set (getBenefitsOfAllDiscordUsers syncService)
   \<and> maxDailyArticles (sampleBenefit ''u1'' 300 500 True) = 500"
proof -
  have call: "(sampleFeed ''f1'' ''http://x'' 300 ''u1'' None [sampleChannel ''a'' None] [], 500)
     \<in> set (feedHandlerCalls (fst (handleRefreshRate syncService 300 dispatchWorld)))"
    by (simp add: dispatchWorld_calls)
  have B: "getBenefitsOfAllDiscordUsers syncService =
             [sampleBenefit ''u1'' 300 500 True, sampleBenefit ''u4'' 120 50 False]"
    by (simp add: syncService_def sampleService_def)
  have pre: "discordUserId (sampleBenefit ''u1'' 300 500 True)
               = user_discordUserId (sampleFeed ''f1'' ''http://x'' 300 ''u1'' None [sampleChannel ''a'' None] [])
             \<and> maxDailyArticles (sampleBenefit ''u1'' 300 500 True) \<noteq> 0
             \<and> (\<forall>b' \<in> set (getBenefitsOfAllDiscordUsers syncService).
                  discordUserId b' = discordUserId (sampleBenefit ''u1'' 300 500 True)
                    \<longrightarrow> maxDailyArticles b' = maxDailyArticles (sampleBenefit ''u1'' 300 500 True))"
    by (simp add: B sampleBenefit_def sampleFeed_def)
  have mem: "sampleBenefit ''u1'' 300 500 True \<in> set (getBenefitsOfAllDiscordUsers syncService)"
    by (simp add: B)
  have "500 = maxDailyArticles (sampleBenefit ''u1'' 300 500 True)"
    using handleRefreshRate_limit_nonzero [OF call] mem pre by blast
  then show ?thesis using call mem by simp
qed

lemma zeroLimitService_groups:
  "supportersByRefreshRates (filter isSupporter (getBenefitsOfAllDiscordUsers zeroLimitService))
     = [(300, [''u1''])]"
  by (simp add: zeroLimitService_def sampleService_def sampleBenefit_def supportersByRefreshRates_def
        groupSupporter_def mapSet_def)

lemma zeroLimit_candidates:
  "filter (getFeedsQuery 300) (feeds (syncRefreshRates zeroLimitService dispatchWorld)) =
     [sampleFeed ''f1'' ''http://x'' 300 ''u1'' None [sampleChannel ''a'' None] []]"
  unfolding syncRefreshRates_def Let_def zeroLimitService_groups
  by (simp add: updateRate_def updateMany_def defaultRefreshRateSeconds_def zeroLimitService_def
        sampleService_def dispatchWorld_def sampleWorld_def sampleFeed_def getFeedsQuery_def
        sampleChannel_def)

text \<open>
  C8. The limit handed to \<open>feedHandler\<close> is to be the owning account's entitlement whenever
  the account is in the benefit list. The code misses an entitlement of 0: the only benefit
  record is that of account \<open>u1\<close> and grants 0 daily articles, a feed of \<open>u1\<close> is
  streamed, and \<open>feedHandler\<close> receives the default 50, since \<open>||\<close> takes the number 0
  that \<open>get\<close> returned for a missing value.
\<close>

theorem handleRefreshRate_zero_entitlement_passes_default:
  "map discordUserId (getBenefitsOfAllDiscordUsers zeroLimitService) = [''u1'']
   \<and> map maxDailyArticles (getBenefitsOfAllDiscordUsers zeroLimitService) = [0]
   \<and> map user_discordUserId
        (map fst (feedHandlerCalls (fst (handleRefreshRate zeroLimitService 300 dispatchWorld))))
       = [''u1'']
   \<and> map snd (feedHandlerCalls (fst (handleRefreshRate zeroLimitService 300 dispatchWorld))) = [50]"
proof -
  have "feedHandlerCalls (fst (handleRefreshRate zeroLimitService 300 dispatchWorld)) =
          map (\<lambda>feed. (feed, numberOr (dailyLimitsByDiscordUserId (getBenefitsOfAllDiscordUsers zeroLimitService)
                                          (user_discordUserId feed))
                                (maxDailyArticlesDefault zeroLimitService)))
            (filter (getFeedsQuery 300) (feeds (syncRefreshRates zeroLimitService dispatchWorld)))"
    by (simp add: handleRefreshRate_def Let_def getFeedCursorMatchingRefreshRate_def logger_def)
  then have "feedHandlerCalls (fst (handleRefreshRate zeroLimitService 300 dispatchWorld)) =
     [(sampleFeed ''f1'' ''http://x'' 300 ''u1'' None [sampleChannel ''a'' None] [], 50)]"
    unfolding zeroLimit_candidates
    by (simp add: dailyLimitsByDiscordUserId_def numberOr_def zeroLimitService_def sampleService_def
          sampleBenefit_def sampleFeed_def)
  then show ?thesis
    by (simp add: zeroLimitService_def sampleService_def sampleBenefit_def sampleFeed_def)
qed

section \<open>The other branches of a destination rejection, and the batch size\<close>

text \<open>
  A reject code the table does not know makes the handler throw before any update, and an
  unknown feed makes it return after a warning; the store is untouched in both cases.
\<close>

lemma handleRejectedArticleDisableConnection_throws:
  assumes "findById feedId w = Some foundFeed"
      and "getConnectionDisableCodeByArticleRejectCode svc rejectedCode = Inl e"
  shows "handleRejectedArticleDisableConnection svc feedId mediumId rejectedCode w = (Inl e, w)"
  using assms by (simp add: handleRejectedArticleDisableConnection_def)

lemma handleRejectedArticleDisableConnection_not_found:
  assumes "findById feedId w = None"
  shows "feeds (snd (handleRejectedArticleDisableConnection svc feedId mediumId rejectedCode w)) = feeds w
       \<and> fst (handleRejectedArticleDisableConnection svc feedId mediumId rejectedCode w) = Inr ()"
  using assms by (simp add: handleRejectedArticleDisableConnection_def logger_def)

text \<open>Thirty URLs go out in two batches, of 25 and of 5.\<close>

lemma chunk_thirty:
  assumes "length xs = 30"
  shows "map length (chunk 25 xs) = [25, 5]"
proof -
  have ne: "xs \<noteq> []" "drop 25 xs \<noteq> []" using assms by auto
  have "chunk 25 xs = take 25 xs # chunk 25 (drop 25 xs)"
    using ne by (subst chunk.simps) simp
  also have "chunk 25 (drop 25 xs) = take 25 (drop 25 xs) # chunk 25 (drop 25 (drop 25 xs))"
    using ne by (subst chunk.simps) simp
  also have "chunk 25 (drop 25 (drop 25 xs)) = []"
    using assms by (subst chunk.simps) simp
  finally show ?thesis using assms by simp
qed

end
